theory Spec2Isabelle
  imports Main "HOL-Library.AList" "HOL-Library.Sublist"
begin

section \<open>Data model of \<^verbatim>\<open>src/index.ts\<close>\<close>

text \<open>
  The interface \<^verbatim>\<open>Task\<close>. The fields \<^verbatim>\<open>id\<close> and \<^verbatim>\<open>notes\<close> are called \<open>task_id\<close> and \<open>task_notes\<close> here
  (\<open>id\<close> is the identity function of HOL, \<open>notes\<close> a keyword); optional fields are options.
\<close>

record task =
  task_id :: string
  title :: string
  task_notes :: "string option"
  status :: string
  due :: "string option"
  completed :: "string option"
  updated :: string
  parent :: "string option"
  position :: "string option"

text \<open>One value of \<^verbatim>\<open>SyncState.tasks\<close>.\<close>

record syncRecord =
  accountAId :: string
  accountBId :: string
  lastSyncedUpdate :: string

text \<open>
  The interface \<^verbatim>\<open>SyncState\<close>. The object \<^verbatim>\<open>tasks\<close> is an association list in
  property order: assigning to a key that exists keeps its place, a new key goes to the
  end, \<^verbatim>\<open>delete\<close> removes the key (\<open>AList.update\<close>, \<open>AList.delete\<close>). Every key the
  program writes contains a dash, so no key is an array index and the property order is
  the insertion order.
\<close>

record syncState =
  tasks :: "(string \<times> syncRecord) list"
  lastSyncTime :: string

record taskList =
  list_id :: string
  list_title :: string

text \<open>
  A thrown value, as far as the program looks at it: \<^verbatim>\<open>error.code\<close> and
  \<^verbatim>\<open>error.message\<close>. A code is a number (the HTTP status), a string (a system error
  name such as \<^verbatim>\<open>ECONNRESET\<close>, or a status written as a string such as \<^verbatim>\<open>'503'\<close>) or
  absent.
\<close>

datatype err_code = Num int | StrCode string | Undefined

datatype error = Error (code: err_code) (message: "string option")

datatype account = AccountA | AccountB

text \<open>The \<^verbatim>\<open>requestBody\<close> of an insert or an update: the four fields that are synced.\<close>

record requestBody =
  rb_title :: string
  rb_notes :: "string option"
  rb_status :: string
  rb_due :: "string option"

text \<open>A call of one of the methods \<^verbatim>\<open>createTask\<close>, \<^verbatim>\<open>updateTask\<close>, \<^verbatim>\<open>deleteTask\<close>
  that reached the remote service (account, task id, request body).\<close>

datatype call =
  CreateTask account requestBody
| UpdateTask account string requestBody
| DeleteTask account string

datatype log_entry =
  Info string | Notice string | Warning string | Err string
| StartGroup string | EndGroup

text \<open>
  What lies outside the program is a parameter: the state \<open>'w\<close> of the outside world
  (both remote stores, the file system, the clock), the calls of the Tasks API as
  functions on it (an \<open>Inl\<close> result is a rejected promise), the passing of time during
  \<^verbatim>\<open>setTimeout\<close>, the number \<^verbatim>\<open>new Date(s)\<close> stands for (\<open>None\<close> for an invalid
  date, whose comparisons are all false), \<^verbatim>\<open>new Date().toISOString()\<close>, the state
  file and the environment variable \<^verbatim>\<open>TASK_LIST_NAME\<close>. The language's comparison
  \<^verbatim>\<open>x >= n\<close> of a string \<open>x\<close> with a number \<open>n\<close> is a parameter too: it converts the
  string to a number first, so that \<^verbatim>\<open>'503' >= 500\<close> is true, and is false for a string
  that is no numeric literal.
\<close>

record 'w env =
  api_tasklists_list :: "account \<Rightarrow> 'w \<Rightarrow> (error + taskList list) \<times> 'w"
  api_tasks_list :: "account \<Rightarrow> string \<Rightarrow> string option \<Rightarrow> 'w \<Rightarrow> (error + task list \<times> string option) \<times> 'w"
  api_tasks_insert :: "account \<Rightarrow> string \<Rightarrow> requestBody \<Rightarrow> 'w \<Rightarrow> (error + task) \<times> 'w"
  api_tasks_update :: "account \<Rightarrow> string \<Rightarrow> string \<Rightarrow> requestBody \<Rightarrow> 'w \<Rightarrow> (error + task) \<times> 'w"
  api_tasks_delete :: "account \<Rightarrow> string \<Rightarrow> string \<Rightarrow> 'w \<Rightarrow> (error + unit) \<times> 'w"
  setTimeout :: "nat \<Rightarrow> 'w \<Rightarrow> 'w"
  dateValue :: "string \<Rightarrow> int option"
  nowISO :: "'w \<Rightarrow> string"
  readFile :: "'w \<Rightarrow> syncState option"
  writeFile :: "syncState \<Rightarrow> 'w \<Rightarrow> (error + unit) \<times> 'w"
  TASK_LIST_NAME :: "string option"
  stringGe :: "string \<Rightarrow> int \<Rightarrow> bool"

text \<open>
  The state of a run: the field \<^verbatim>\<open>syncState\<close> of the object, the local variable
  \<^verbatim>\<open>processedPairs\<close> of \<^verbatim>\<open>syncTaskLists\<close>, the outside world, and three records of
  what the run did: the delays it slept, the method calls that reached the remote
  service, and the lines it logged (\<^verbatim>\<open>core.debug\<close> is left out).
\<close>

record 'w run =
  syncState :: syncState
  processedPairs :: "string set"
  world :: 'w
  slept :: "nat list"
  issued :: "call list"
  log :: "log_entry list"

section \<open>Strings\<close>

definition digit :: "nat \<Rightarrow> char" where
  "digit d = char_of (48 + d)"

function show_nat :: "nat \<Rightarrow> string" where
  "show_nat n = (if n < 10 then [digit n] else show_nat (n div 10) @ [digit (n mod 10)])"
  by pat_completeness auto
termination
  by (relation "measure (\<lambda>n. n)") auto

definition show_int :: "int \<Rightarrow> string" where
  "show_int i = (if i < 0 then CHR ''-'' # show_nat (nat (- i)) else show_nat (nat i))"

definition show_bool :: "bool \<Rightarrow> string" where
  "show_bool b = (if b then ''true'' else ''false'')"

text \<open>A code and a message inside a template literal.\<close>

fun show_code :: "err_code \<Rightarrow> string" where
  "show_code (Num n) = show_int n"
| "show_code (StrCode s) = s"
| "show_code Undefined = ''undefined''"

fun show_message :: "string option \<Rightarrow> string" where
  "show_message (Some m) = m"
| "show_message None = ''undefined''"

text \<open>\<^verbatim>\<open>error.message?.includes(sub)\<close>: false when there is no message.\<close>

fun msg_includes :: "string option \<Rightarrow> string \<Rightarrow> bool" where
  "msg_includes None sub = False"
| "msg_includes (Some m) sub = sublist sub m"

section \<open>Logging and sleeping\<close>

definition core_info :: "string \<Rightarrow> 'w run \<Rightarrow> 'w run" where
  "core_info m s = s\<lparr>log := log s @ [Info m]\<rparr>"

definition core_notice :: "string \<Rightarrow> 'w run \<Rightarrow> 'w run" where
  "core_notice m s = s\<lparr>log := log s @ [Notice m]\<rparr>"

definition core_warning :: "string \<Rightarrow> 'w run \<Rightarrow> 'w run" where
  "core_warning m s = s\<lparr>log := log s @ [Warning m]\<rparr>"

definition core_error :: "string \<Rightarrow> 'w run \<Rightarrow> 'w run" where
  "core_error m s = s\<lparr>log := log s @ [Err m]\<rparr>"

definition sleep :: "'w env \<Rightarrow> nat \<Rightarrow> 'w run \<Rightarrow> 'w run" where
  "sleep env ms s = s\<lparr>world := setTimeout env ms (world s), slept := slept s @ [ms]\<rparr>"

section \<open>\<^verbatim>\<open>retryWithBackoff\<close>\<close>

definition MAX_RETRIES :: nat where
  "MAX_RETRIES = 5"

definition INITIAL_DELAY_MS :: nat where
  "INITIAL_DELAY_MS = 1000"

definition isRateLimitError :: "error \<Rightarrow> bool" where
  "isRateLimitError e \<longleftrightarrow>
     code e = Num 429 \<or>
     msg_includes (message e) ''Quota Exceeded'' \<or>
     msg_includes (message e) ''Rate Limit Exceeded'' \<or>
     msg_includes (message e) ''rateLimitExceeded''"

text \<open>
  \<^verbatim>\<open>error.code >= 500 || error.code === 'ECONNRESET'\<close>. The comparison \<^verbatim>\<open>>=\<close>
  converts a string code to a number; an absent code becomes \<^verbatim>\<open>NaN\<close>, which compares
  false. The tests \<^verbatim>\<open>=== 429\<close>, \<^verbatim>\<open>=== 404\<close> and \<^verbatim>\<open>=== 400\<close> convert nothing: they hold of
  the number only.
\<close>

definition isServerError :: "'w env \<Rightarrow> error \<Rightarrow> bool" where
  "isServerError env e \<longleftrightarrow>
     (case code e of
        Num n \<Rightarrow> 500 \<le> n
      | StrCode c \<Rightarrow> stringGe env c 500 \<or> c = ''ECONNRESET''
      | Undefined \<Rightarrow> False)"

definition retryMessage :: "string \<Rightarrow> string \<Rightarrow> nat \<Rightarrow> nat \<Rightarrow> nat \<Rightarrow> string" where
  "retryMessage what operationName delayMs attempt retries =
     what @ '' for '' @ operationName @ ''. Retrying in '' @ show_nat delayMs @
     ''ms (attempt '' @ show_nat (attempt + 1) @ ''/'' @ show_nat retries @ '')...''"

text \<open>
  The loop \<^verbatim>\<open>for (let attempt = 0; attempt <= retries; attempt++)\<close>, from a given value
  of \<open>attempt\<close> on. The operation acts on the outside world; a result \<open>Inl\<close> is a throw.
\<close>

function retryLoop ::
  "'w env \<Rightarrow> ('w \<Rightarrow> (error + 'a) \<times> 'w) \<Rightarrow> string \<Rightarrow> nat \<Rightarrow> nat \<Rightarrow> 'w run \<Rightarrow> (error + 'a) \<times> 'w run"
where
  "retryLoop env operation operationName retries attempt s =
     (if attempt \<le> retries then
        (case operation (world s) of
           (Inr v, w) \<Rightarrow> (Inr v, s\<lparr>world := w\<rparr>)
         | (Inl e, w) \<Rightarrow>
             (let s1 = s\<lparr>world := w\<rparr>;
                  delayMs = INITIAL_DELAY_MS * 2 ^ attempt
              in if isRateLimitError e \<and> attempt < retries then
                   retryLoop env operation operationName retries (attempt + 1)
                     (sleep env delayMs
                       (core_error (retryMessage ''Rate limit hit'' operationName delayMs attempt retries) s1))
                 else if attempt < retries \<and> isServerError env e then
                   retryLoop env operation operationName retries (attempt + 1)
                     (sleep env delayMs
                       (core_error (retryMessage ''Server error'' operationName delayMs attempt retries) s1))
                 else (Inl e, s1)))
      else (Inl (Error Undefined (Some (''Failed after '' @ show_nat retries @ '' retries''))), s))"
  by pat_completeness auto
termination
  by (relation "measure (\<lambda>(env, operation, operationName, retries, attempt, s). Suc retries - attempt)") auto

definition retryWithBackoff ::
  "'w env \<Rightarrow> ('w \<Rightarrow> (error + 'a) \<times> 'w) \<Rightarrow> string \<Rightarrow> 'w run \<Rightarrow> (error + 'a) \<times> 'w run"
where
  "retryWithBackoff env operation operationName s =
     retryLoop env operation operationName MAX_RETRIES 0 s"

section \<open>The methods that call the Tasks API\<close>

definition body_of :: "task \<Rightarrow> requestBody" where
  "body_of t = \<lparr>rb_title = title t, rb_notes = task_notes t, rb_status = status t, rb_due = due t\<rparr>"

definition record_call :: "call \<Rightarrow> 'w run \<Rightarrow> 'w run" where
  "record_call c s = s\<lparr>issued := issued s @ [c]\<rparr>"

definition getTaskLists :: "'w env \<Rightarrow> account \<Rightarrow> 'w run \<Rightarrow> (error + taskList list) \<times> 'w run" where
  "getTaskLists env acct s = retryWithBackoff env (api_tasklists_list env acct) ''getTaskLists'' s"

definition createTask ::
  "'w env \<Rightarrow> account \<Rightarrow> string \<Rightarrow> task \<Rightarrow> 'w run \<Rightarrow> (error + task) \<times> 'w run"
where
  "createTask env acct taskListId t s =
     retryWithBackoff env (api_tasks_insert env acct taskListId (body_of t))
       (''createTask: '' @ title t) (record_call (CreateTask acct (body_of t)) s)"

definition updateTask ::
  "'w env \<Rightarrow> account \<Rightarrow> string \<Rightarrow> string \<Rightarrow> task \<Rightarrow> 'w run \<Rightarrow> (error + task) \<times> 'w run"
where
  "updateTask env acct taskListId taskId t s =
     (if taskId = [] then
        (Inl (Error Undefined (Some ''Cannot update task: taskId is missing'')), s)
      else retryWithBackoff env (api_tasks_update env acct taskListId taskId (body_of t))
             (''updateTask: '' @ title t) (record_call (UpdateTask acct taskId (body_of t)) s))"

definition deleteTask ::
  "'w env \<Rightarrow> account \<Rightarrow> string \<Rightarrow> string \<Rightarrow> 'w run \<Rightarrow> (error + unit) \<times> 'w run"
where
  "deleteTask env acct taskListId taskId s =
     retryWithBackoff env (api_tasks_delete env acct taskListId taskId)
       (''deleteTask: '' @ taskId) (record_call (DeleteTask acct taskId) s)"

definition tasksAreEqual :: "task \<Rightarrow> task \<Rightarrow> bool" where
  "tasksAreEqual task1 task2 \<longleftrightarrow>
     title task1 = title task2 \<and> task_notes task1 = task_notes task2 \<and>
     status task1 = status task2 \<and> due task1 = due task2"

text \<open>\<^verbatim>\<open>new Date(x) > new Date(y)\<close>: false as soon as one of the two dates is invalid.\<close>

definition date_gt :: "'w env \<Rightarrow> string \<Rightarrow> string \<Rightarrow> bool" where
  "date_gt env x y =
     (case (dateValue env x, dateValue env y) of (Some m, Some n) \<Rightarrow> n < m | _ \<Rightarrow> False)"

section \<open>The two loops of \<^verbatim>\<open>syncTaskLists\<close>\<close>

text \<open>The key \<^verbatim>\<open>`${syncRecord.accountAId}-${syncRecord.accountBId}`\<close>.\<close>

definition pairKey :: "syncRecord \<Rightarrow> string" where
  "pairKey r = accountAId r @ ''-'' @ accountBId r"

text \<open>\<^verbatim>\<open>delete this.syncState.tasks[key]\<close>\<close>

definition deletePair :: "string \<Rightarrow> 'w run \<Rightarrow> 'w run" where
  "deletePair key s =
     s\<lparr>syncState := (syncState s)\<lparr>tasks := AList.delete key (tasks (syncState s))\<rparr>\<rparr>"

text \<open>\<^verbatim>\<open>this.syncState.tasks[key] = r\<close>\<close>

definition putPair :: "string \<Rightarrow> syncRecord \<Rightarrow> 'w run \<Rightarrow> 'w run" where
  "putPair key r s =
     s\<lparr>syncState := (syncState s)\<lparr>tasks := AList.update key r (tasks (syncState s))\<rparr>\<rparr>"

text \<open>
  \<^verbatim>\<open>syncRecord.lastSyncedUpdate = x\<close>, where \<open>syncRecord\<close> is the object that
  \<^verbatim>\<open>Object.values(...).find(...)\<close> returned: the value stored under the key \<open>k\<close> it
  was found at. The assignment changes that object in place.
\<close>

definition setLastSyncedUpdate :: "string \<Rightarrow> string \<Rightarrow> 'w run \<Rightarrow> 'w run" where
  "setLastSyncedUpdate k x s =
     s\<lparr>syncState := (syncState s)\<lparr>tasks :=
          AList.map_entry k (\<lambda>r. r\<lparr>lastSyncedUpdate := x\<rparr>) (tasks (syncState s))\<rparr>\<rparr>"

fun show_account :: "account \<Rightarrow> string" where
  "show_account AccountA = ''A''"
| "show_account AccountB = ''B''"

definition failureMessage :: "string \<Rightarrow> error \<Rightarrow> string" where
  "failureMessage what e =
     ''Failed to '' @ what @ ''. Code: '' @ show_code (code e) @
     '' Message: '' @ show_message (message e)"

text \<open>
  The \<^verbatim>\<open>catch\<close> block of the four updates: the error is logged, and on code 404 or 400
  the pair record is deleted under the key made of its two ids.
\<close>

definition updateFailed :: "account \<Rightarrow> syncRecord \<Rightarrow> error \<Rightarrow> 'w run \<Rightarrow> 'w run" where
  "updateFailed dst syncRecord e s =
     (let s1 = core_error (failureMessage (''update task in '' @ show_account dst) e) s
      in if code e = Num 404 \<or> code e = Num 400 then deletePair (pairKey syncRecord) s1 else s1)"

text \<open>
  The \<^verbatim>\<open>try\<close>/\<^verbatim>\<open>catch\<close> statement that the four branches share: task \<open>src\<close> is copied
  onto the task \<open>taskId\<close> of account \<open>dst\<close> unless \<open>tasksAreEqual\<close> holds, then the
  record's \<open>lastSyncedUpdate\<close> becomes \<open>src.updated\<close>; a throw of \<open>updateTask\<close> skips
  that assignment. Only the two one-sided branches log that the content is identical.
\<close>

definition copyOnto ::
  "'w env \<Rightarrow> account \<Rightarrow> string \<Rightarrow> string \<Rightarrow> task \<Rightarrow> bool \<Rightarrow> bool \<Rightarrow> string \<Rightarrow> syncRecord \<Rightarrow>
   'w run \<Rightarrow> 'w run"
where
  "copyOnto env dst taskListId taskId src equal sayIdentical k syncRecord s =
     (if \<not> equal then
        (case updateTask env dst taskListId taskId src s of
           (Inr _, s1) \<Rightarrow> setLastSyncedUpdate k (updated src) s1
         | (Inl e, s1) \<Rightarrow> updateFailed dst syncRecord e s1)
      else setLastSyncedUpdate k (updated src)
             (if sayIdentical then core_info ''  Content identical, skipping update'' s else s))"

text \<open>The body of the loop over \<^verbatim>\<open>tasksA\<close>.\<close>

definition syncTaskA ::
  "'w env \<Rightarrow> taskList \<Rightarrow> taskList \<Rightarrow> (string \<Rightarrow> task option) \<Rightarrow> task \<Rightarrow> 'w run \<Rightarrow> 'w run"
where
  "syncTaskA env taskListA taskListB tasksBMap taskA s =
     (case find (\<lambda>(k, r). accountAId r = task_id taskA) (tasks (syncState s)) of
        Some (k, syncRecord) \<Rightarrow>
          (case tasksBMap (accountBId syncRecord) of
             Some taskB \<Rightarrow>
               (let aModified = date_gt env (updated taskA) (lastSyncedUpdate syncRecord);
                    bModified = date_gt env (updated taskB) (lastSyncedUpdate syncRecord);
                    s1 = core_info (''  A modified: '' @ show_bool aModified @
                                    '', B modified: '' @ show_bool bModified)
                          (core_info (''  A updated: '' @ updated taskA @ '', B updated: '' @
                                      updated taskB @ '', Last synced: '' @
                                      lastSyncedUpdate syncRecord)
                            (core_info (''Checking task: '' @ title taskA) s));
                    s2 =
                      (if aModified \<and> bModified then
                         (if date_gt env (updated taskA) (updated taskB) then
                            copyOnto env AccountB (list_id taskListB) (task_id taskB) taskA
                              (tasksAreEqual taskA taskB) False k syncRecord
                              (core_info (''Conflict resolved: A -> B ('' @ title taskA @ '')'') s1)
                          else
                            copyOnto env AccountA (list_id taskListA) (task_id taskA) taskB
                              (tasksAreEqual taskA taskB) False k syncRecord
                              (core_info (''Conflict resolved: B -> A ('' @ title taskB @ '')'') s1))
                       else if aModified then
                         copyOnto env AccountB (list_id taskListB) (task_id taskB) taskA
                           (tasksAreEqual taskA taskB) True k syncRecord
                           (core_info (''Syncing A -> B: '' @ title taskA) s1)
                       else if bModified then
                         copyOnto env AccountA (list_id taskListA) (task_id taskA) taskB
                           (tasksAreEqual taskA taskB) True k syncRecord
                           (core_info (''Syncing B -> A: '' @ title taskB) s1)
                       else core_info (''No changes for task: '' @ title taskA) s1)
                in s2\<lparr>processedPairs := insert (pairKey syncRecord) (processedPairs s2)\<rparr>)
           | None \<Rightarrow>
               (let s1 = core_info (''Deleting from A (deleted in B): '' @ title taskA) s;
                    s2 = (case deleteTask env AccountA (list_id taskListA) (task_id taskA) s1 of
                            (Inr _, s') \<Rightarrow> s'
                          | (Inl e, s') \<Rightarrow> core_error (failureMessage ''delete task from A'' e) s')
                in deletePair (pairKey syncRecord) s2))
      | None \<Rightarrow>
          (let s1 = core_info (''New task in A, creating in B: '' @ title taskA) s
           in case createTask env AccountB (list_id taskListB) taskA s1 of
                (Inr newTaskB, s2) \<Rightarrow>
                  (let s3 = putPair (task_id taskA @ ''-'' @ task_id newTaskB)
                              \<lparr>accountAId = task_id taskA, accountBId = task_id newTaskB,
                               lastSyncedUpdate = updated taskA\<rparr> s2
                   in s3\<lparr>processedPairs :=
                          insert (task_id taskA @ ''-'' @ task_id newTaskB) (processedPairs s3)\<rparr>)
              | (Inl e, s2) \<Rightarrow> core_error (failureMessage ''create task in B'' e) s2))"

text \<open>The body of the loop over \<^verbatim>\<open>tasksB\<close>.\<close>

definition syncTaskB :: "'w env \<Rightarrow> taskList \<Rightarrow> taskList \<Rightarrow> task \<Rightarrow> 'w run \<Rightarrow> 'w run" where
  "syncTaskB env taskListA taskListB taskB s =
     (case find (\<lambda>(k, r). accountBId r = task_id taskB) (tasks (syncState s)) of
        Some (k, syncRecord) \<Rightarrow>
          (if pairKey syncRecord \<in> processedPairs s then s
           else
             (let s1 = core_info (''Deleting from B (deleted in A): '' @ title taskB) s;
                  s2 = (case deleteTask env AccountB (list_id taskListB) (task_id taskB) s1 of
                          (Inr _, s') \<Rightarrow> s'
                        | (Inl e, s') \<Rightarrow> core_error (failureMessage ''delete task from B'' e) s')
              in deletePair (pairKey syncRecord) s2))
      | None \<Rightarrow>
          (let s1 = core_info (''New task in B, creating in A: '' @ title taskB) s
           in case createTask env AccountA (list_id taskListA) taskB s1 of
                (Inr newTaskA, s2) \<Rightarrow>
                  putPair (task_id newTaskA @ ''-'' @ task_id taskB)
                    \<lparr>accountAId = task_id newTaskA, accountBId = task_id taskB,
                     lastSyncedUpdate = updated taskB\<rparr> s2
              | (Inl e, s2) \<Rightarrow> core_error (failureMessage ''create task in A'' e) s2))"

text \<open>
  \<^verbatim>\<open>new Map(tasksB.map(t => [t.id, t]))\<close>: of two tasks with one id the later one stays.
\<close>

definition taskMap :: "task list \<Rightarrow> string \<Rightarrow> task option" where
  "taskMap ts = map_of (rev (map (\<lambda>t. (task_id t, t)) ts))"

text \<open>
  From the construction of the two maps to the end of the second loop: the reconcile pass
  over the snapshots \<open>tasksA\<close> and \<open>tasksB\<close>.
\<close>

definition reconcile ::
  "'w env \<Rightarrow> taskList \<Rightarrow> taskList \<Rightarrow> task list \<Rightarrow> task list \<Rightarrow> 'w run \<Rightarrow> 'w run"
where
  "reconcile env taskListA taskListB tasksA tasksB s =
     fold (syncTaskB env taskListA taskListB) tasksB
       (fold (syncTaskA env taskListA taskListB (taskMap tasksB)) tasksA
          (s\<lparr>processedPairs := {}\<rparr>))"

section \<open>Fetching the snapshots, and the whole pass\<close>

text \<open>\<^verbatim>\<open>if (pageToken)\<close>: an absent or empty token ends the \<^verbatim>\<open>do\<close> loop.\<close>

fun truthy :: "string option \<Rightarrow> bool" where
  "truthy None = False"
| "truthy (Some t) = (t \<noteq> [])"

text \<open>
  The \<^verbatim>\<open>do ... while (pageToken)\<close> loop of \<^verbatim>\<open>getAllTasks\<close>. A service that never
  stops handing out continuation tokens keeps it running for ever: the result is then
  \<open>None\<close>.
\<close>

partial_function (option) getAllTasksLoop ::
  "'w env \<Rightarrow> account \<Rightarrow> string \<Rightarrow> task list \<Rightarrow> string option \<Rightarrow> 'w run \<Rightarrow>
   ((error + task list) \<times> 'w run) option"
where
  "getAllTasksLoop env acct taskListId acc pageToken s =
     (case retryWithBackoff env (api_tasks_list env acct taskListId pageToken)
             (''getAllTasks (page '' @ (if truthy pageToken then the pageToken else ''first'') @ '')'') s of
        (Inl e, s1) \<Rightarrow> Some (Inl e, s1)
      | (Inr (items, nextPageToken), s1) \<Rightarrow>
          (if truthy nextPageToken then
             getAllTasksLoop env acct taskListId (acc @ items) nextPageToken (sleep env 200 s1)
           else Some (Inr (acc @ items), s1)))"

declare getAllTasksLoop.simps [code]

definition getAllTasks ::
  "'w env \<Rightarrow> account \<Rightarrow> string \<Rightarrow> 'w run \<Rightarrow> ((error + task list) \<times> 'w run) option"
where
  "getAllTasks env acct taskListId s = getAllTasksLoop env acct taskListId [] None s"

definition findTaskListByName ::
  "'w env \<Rightarrow> account \<Rightarrow> string \<Rightarrow> 'w run \<Rightarrow> (error + taskList option) \<times> 'w run"
where
  "findTaskListByName env acct listName s =
     (case getTaskLists env acct s of
        (Inl e, s1) \<Rightarrow> (Inl e, s1)
      | (Inr ls, s1) \<Rightarrow> (Inr (find (\<lambda>l. list_title l = listName) ls), s1))"

text \<open>
  The choice of the two lists: the first list of each account, or the lists called
  \<^verbatim>\<open>TASK_LIST_NAME\<close> when that variable is set and both accounts have such a list.
\<close>

definition chooseTaskLists ::
  "'w env \<Rightarrow> taskList list \<Rightarrow> taskList list \<Rightarrow> 'w run \<Rightarrow> (error + taskList \<times> taskList) \<times> 'w run"
where
  "chooseTaskLists env taskListsA taskListsB s =
     (if truthy (TASK_LIST_NAME env) then
        (let targetListName = the (TASK_LIST_NAME env)
         in case findTaskListByName env AccountA targetListName s of
              (Inl e, s1) \<Rightarrow> (Inl e, s1)
            | (Inr foundListA, s1) \<Rightarrow>
                (case findTaskListByName env AccountB targetListName s1 of
                   (Inl e, s2) \<Rightarrow> (Inl e, s2)
                 | (Inr foundListB, s2) \<Rightarrow>
                     (case (foundListA, foundListB) of
                        (Some la, Some lb) \<Rightarrow>
                          (Inr (la, lb),
                           core_notice (''Syncing specific list: \"'' @ targetListName @ ''\"'') s2)
                      | _ \<Rightarrow>
                          (Inr (hd taskListsA, hd taskListsB),
                           core_warning (''Warning: Task list \"'' @ targetListName @
                             ''\" not found in both accounts, using default list'') s2))))
      else (Inr (hd taskListsA, hd taskListsB), s))"

text \<open>\<^verbatim>\<open>saveSyncState\<close>\<close>

definition saveSyncState :: "'w env \<Rightarrow> 'w run \<Rightarrow> (error + unit) \<times> 'w run" where
  "saveSyncState env s =
     (case writeFile env (syncState s) (world s) of
        (Inl e, w) \<Rightarrow> (Inl e, s\<lparr>world := w\<rparr>)
      | (Inr _, w) \<Rightarrow> (Inr (), core_notice ''Sync state saved'' (s\<lparr>world := w\<rparr>)))"

text \<open>
  \<^verbatim>\<open>syncTaskLists\<close>. The result \<open>Inl e\<close> is the throw of \<open>e\<close>, \<open>Inr ()\<close> a normal
  return (the method returns nothing), \<open>None\<close> a run that never ends.
\<close>

definition syncTaskLists :: "'w env \<Rightarrow> 'w run \<Rightarrow> ((error + unit) \<times> 'w run) option" where
  "syncTaskLists env s0 =
     (let s = core_info ''Starting sync...'' (s0\<lparr>log := log s0 @ [StartGroup ''Sync Group'']\<rparr>)
      in case getTaskLists env AccountA s of
           (Inl e, s1) \<Rightarrow> Some (Inl e, s1)
         | (Inr taskListsA, s1) \<Rightarrow>
       (case getTaskLists env AccountB s1 of
           (Inl e, s2) \<Rightarrow> Some (Inl e, s2)
         | (Inr taskListsB, s2) \<Rightarrow>
       (if taskListsA = [] \<or> taskListsB = [] then
          Some (Inr (), core_notice ''No task lists found in one or both accounts'' s2)
        else
       (case chooseTaskLists env taskListsA taskListsB s2 of
           (Inl e, s3) \<Rightarrow> Some (Inl e, s3)
         | (Inr (taskListA, taskListB), s3) \<Rightarrow>
       (let s4 = core_notice (''Syncing: Account A ('' @ list_title taskListA @
                    '') <-> Account B ('' @ list_title taskListB @ '')'') s3
        in case getAllTasks env AccountA (list_id taskListA) s4 of
             None \<Rightarrow> None
           | Some (Inl e, s5) \<Rightarrow> Some (Inl e, s5)
           | Some (Inr tasksA, s5) \<Rightarrow>
       (case getAllTasks env AccountB (list_id taskListB) s5 of
             None \<Rightarrow> None
           | Some (Inl e, s6) \<Rightarrow> Some (Inl e, s6)
           | Some (Inr tasksB, s6) \<Rightarrow>
       (let s7 = core_notice (''Found '' @ show_nat (length tasksA) @ '' tasks in Account A, '' @
                    show_nat (length tasksB) @ '' tasks in Account B'') s6;
            s8 = reconcile env taskListA taskListB tasksA tasksB s7;
            s9 = s8\<lparr>syncState := (syncState s8)\<lparr>lastSyncTime := nowISO env (world s8)\<rparr>\<rparr>
        in case saveSyncState env s9 of
             (Inl e, s10) \<Rightarrow> Some (Inl e, s10)
           | (Inr _, s10) \<Rightarrow>
               Some (Inr (), (core_info ''Sync completed successfully!'' s10)
                               \<lparr>log := log (core_info ''Sync completed successfully!'' s10) @ [EndGroup]\<rparr>))))))))"

text \<open>\<^verbatim>\<open>loadSyncState\<close>: a state file that is missing or does not parse gives the empty state.\<close>

definition epochISO :: string where
  "epochISO = ''1970-01-01T00:00:00.000Z''"

definition loadSyncState :: "'w env \<Rightarrow> 'w run \<Rightarrow> 'w run" where
  "loadSyncState env s =
     (case readFile env (world s) of
        Some st \<Rightarrow> core_notice ''Loaded existing sync state'' (s\<lparr>syncState := st\<rparr>)
      | None \<Rightarrow>
          core_notice ''No existing sync state found, starting fresh''
            (s\<lparr>syncState := \<lparr>tasks = [], lastSyncTime = epochISO\<rparr>\<rparr>))"

text \<open>
  \<^verbatim>\<open>main\<close>, from a given outside world: the exit status of the process (\<open>0\<close> when
  \<^verbatim>\<open>main\<close> returns, \<open>1\<close> from \<^verbatim>\<open>process.exit(1)\<close>) and the final state.
\<close>

definition main :: "'w env \<Rightarrow> 'w \<Rightarrow> (nat \<times> 'w run) option" where
  "main env w =
     (let s0 = loadSyncState env
                 \<lparr>syncState = \<lparr>tasks = [], lastSyncTime = epochISO\<rparr>, processedPairs = {},
                  world = w, slept = [], issued = [], log = []\<rparr>
      in case syncTaskLists env s0 of
           None \<Rightarrow> None
         | Some (Inr _, s1) \<Rightarrow> Some (0, s1)
         | Some (Inl e, s1) \<Rightarrow>
             Some (1, core_error (''Sync failed: '' @ show_message (message e)) s1))"

section \<open>An in-memory remote service\<close>

text \<open>
  Modelled from the spec: the remote task-list service and the state file, which are no
  code of this repository (section 4.1, Remote Store Client). Each account holds one
  task list; \<open>createTask\<close> assigns a new store-local id and an \<open>updated\<close> timestamp,
  \<open>updateTask\<close> replaces title, notes, status and due and fails with code 404 when the id
  is absent, \<open>deleteTask\<close> fails with code 404 when the id is absent, and the tasks are
  listed on one page. Timestamps are milliseconds written in decimal, read from a clock
  that every write advances; ids are made from the same clock.
\<close>

record memory =
  storeA :: "task list"
  storeB :: "task list"
  clock :: nat
  stateFile :: "syncState option"

fun store :: "account \<Rightarrow> memory \<Rightarrow> task list" where
  "store AccountA w = storeA w"
| "store AccountB w = storeB w"

fun set_store :: "account \<Rightarrow> task list \<Rightarrow> memory \<Rightarrow> memory" where
  "set_store AccountA ts w = w\<lparr>storeA := ts\<rparr>"
| "set_store AccountB ts w = w\<lparr>storeB := ts\<rparr>"

definition new_id :: "nat \<Rightarrow> string" where
  "new_id n = CHR ''t'' # show_nat n"

definition notFound :: error where
  "notFound = Error (Num 404) (Some ''Not Found'')"

fun read_digits :: "nat \<Rightarrow> string \<Rightarrow> nat option" where
  "read_digits acc [] = Some acc"
| "read_digits acc (c # cs) =
     (if 48 \<le> (of_char c :: nat) \<and> (of_char c :: nat) \<le> 57
      then read_digits (10 * acc + (of_char c - 48)) cs else None)"

definition mem_dateValue :: "string \<Rightarrow> int option" where
  "mem_dateValue x = (if x = [] then None else map_option int (read_digits 0 x))"

definition mem_insert :: "account \<Rightarrow> string \<Rightarrow> requestBody \<Rightarrow> memory \<Rightarrow> (error + task) \<times> memory" where
  "mem_insert acct taskListId body w =
     (let t = \<lparr>task_id = new_id (clock w), title = rb_title body, task_notes = rb_notes body,
               status = rb_status body, due = rb_due body, completed = None,
               updated = show_nat (clock w), parent = None, position = None\<rparr>
      in (Inr t, set_store acct (store acct w @ [t]) (w\<lparr>clock := Suc (clock w)\<rparr>)))"

definition mem_update ::
  "account \<Rightarrow> string \<Rightarrow> string \<Rightarrow> requestBody \<Rightarrow> memory \<Rightarrow> (error + task) \<times> memory"
where
  "mem_update acct taskListId taskId body w =
     (case find (\<lambda>t. task_id t = taskId) (store acct w) of
        None \<Rightarrow> (Inl notFound, w)
      | Some t \<Rightarrow>
          (let t' = t\<lparr>title := rb_title body, task_notes := rb_notes body,
                      status := rb_status body, due := rb_due body,
                      updated := show_nat (clock w)\<rparr>
           in (Inr t',
               set_store acct (map (\<lambda>x. if task_id x = taskId then t' else x) (store acct w))
                 (w\<lparr>clock := Suc (clock w)\<rparr>))))"

definition mem_delete :: "account \<Rightarrow> string \<Rightarrow> string \<Rightarrow> memory \<Rightarrow> (error + unit) \<times> memory" where
  "mem_delete acct taskListId taskId w =
     (case find (\<lambda>t. task_id t = taskId) (store acct w) of
        None \<Rightarrow> (Inl notFound, w)
      | Some t \<Rightarrow> (Inr (), set_store acct (filter (\<lambda>x. task_id x \<noteq> taskId) (store acct w)) w))"

text \<open>The codes of this service are written in decimal: \<^verbatim>\<open>x >= n\<close> reads the digits of
  \<open>x\<close> (the empty string is 0) and is false when \<open>x\<close> has another character.\<close>

definition mem_stringGe :: "string \<Rightarrow> int \<Rightarrow> bool" where
  "mem_stringGe x n = (case read_digits 0 x of Some v \<Rightarrow> n \<le> int v | None \<Rightarrow> False)"

definition mem_env :: "memory env" where
  "mem_env =
     \<lparr>api_tasklists_list = (\<lambda>acct w. (Inr [\<lparr>list_id = ''L'', list_title = ''My Tasks''\<rparr>], w)),
      api_tasks_list = (\<lambda>acct taskListId pageToken w. (Inr (store acct w, None), w)),
      api_tasks_insert = mem_insert,
      api_tasks_update = mem_update,
      api_tasks_delete = mem_delete,
      setTimeout = (\<lambda>ms w. w\<lparr>clock := clock w + ms\<rparr>),
      dateValue = mem_dateValue,
      nowISO = (\<lambda>w. show_nat (clock w)),
      readFile = stateFile,
      writeFile = (\<lambda>st w. (Inr (), w\<lparr>stateFile := Some st\<rparr>)),
      TASK_LIST_NAME = None,
      stringGe = mem_stringGe\<rparr>"

text \<open>A run that starts from a given ledger and a given outside world.\<close>

definition start :: "(string \<times> syncRecord) list \<Rightarrow> 'w \<Rightarrow> 'w run" where
  "start ledger w =
     \<lparr>syncState = \<lparr>tasks = ledger, lastSyncTime = epochISO\<rparr>, processedPairs = {},
      world = w, slept = [], issued = [], log = []\<rparr>"

definition mk_task :: "string \<Rightarrow> string \<Rightarrow> string \<Rightarrow> task" where
  "mk_task i t u =
     \<lparr>task_id = i, title = t, task_notes = None, status = ''needsAction'', due = None,
      completed = None, updated = u, parent = None, position = None\<rparr>"

definition theList :: taskList where
  "theList = \<lparr>list_id = ''L'', list_title = ''My Tasks''\<rparr>"

text \<open>The state in which the next attempt starts after a failed one: the retry is logged
  and the delay is slept.\<close>

definition retryState :: "'w env \<Rightarrow> string \<Rightarrow> nat \<Rightarrow> nat \<Rightarrow> error \<Rightarrow> 'w \<Rightarrow> 'w run \<Rightarrow> 'w run" where
  "retryState env name retries attempt e w s =
     sleep env (INITIAL_DELAY_MS * 2 ^ attempt)
       (core_error (retryMessage (if isRateLimitError e then ''Rate limit hit'' else ''Server error'')
           name (INITIAL_DELAY_MS * 2 ^ attempt) attempt retries) (s\<lparr>world := w\<rparr>))"

text \<open>The outside world after a run of failed attempts, each followed by its delay: the
  operation acts, then the delay passes.\<close>

fun retried :: "'w env \<Rightarrow> ('w \<Rightarrow> (error + 'a) \<times> 'w) \<Rightarrow> nat list \<Rightarrow> 'w \<Rightarrow> 'w" where
  "retried env operation [] w = w"
| "retried env operation (d # ds) w = retried env operation ds (setTimeout env d (snd (operation w)))"

text \<open>An operation that fails with a given code until the clock of the in-memory service
  reaches a given time, and returns the time then.\<close>

definition failsUntil :: "nat \<Rightarrow> err_code \<Rightarrow> memory \<Rightarrow> (error + nat) \<times> memory" where
  "failsUntil t c w = (if clock w < t then (Inl (Error c None), w) else (Inr (clock w), w))"

definition emptyWorld :: memory where
  "emptyWorld = \<lparr>storeA = [], storeB = [], clock = 0, stateFile = None\<rparr>"

text \<open>Two paired tasks \<open>a1\<close> and \<open>b1\<close>, last synced at \<open>t0\<close>, and a world that holds them.\<close>

definition pairAB :: "string \<Rightarrow> (string \<times> syncRecord) list" where
  "pairAB t0 = [(''a1-b1'', \<lparr>accountAId = ''a1'', accountBId = ''b1'', lastSyncedUpdate = t0\<rparr>)]"

definition worldAB :: "task \<Rightarrow> task \<Rightarrow> memory" where
  "worldAB a b = \<lparr>storeA = [a], storeB = [b], clock = 1000, stateFile = None\<rparr>"

definition worldOf :: "task list \<Rightarrow> task list \<Rightarrow> memory" where
  "worldOf as bs = \<lparr>storeA = as, storeB = bs, clock = 1000, stateFile = None\<rparr>"

text \<open>What a run of \<^verbatim>\<open>main\<close> reports: the exit status and the lines logged.\<close>

definition report :: "(nat \<times> 'w run) option \<Rightarrow> (nat \<times> log_entry list) option" where
  "report = map_option (\<lambda>(c, s). (c, log s))"

definition fileWorld :: "task \<Rightarrow> task \<Rightarrow> memory" where
  "fileWorld a b =
     \<lparr>storeA = [a], storeB = [b], clock = 1000,
      stateFile = Some \<lparr>tasks = pairAB ''100'', lastSyncTime = epochISO\<rparr>\<rparr>"

definition withNotes :: "string \<Rightarrow> task \<Rightarrow> task" where
  "withNotes n t = t\<lparr>task_notes := Some n\<rparr>"

text \<open>The uniqueness invariant of the ledger: no id of store A and no id of store B occurs in
  two pair records (so no pair of ids does either).\<close>

definition pairsUnique :: "(string \<times> syncRecord) list \<Rightarrow> bool" where
  "pairsUnique al \<longleftrightarrow>
     distinct (map (\<lambda>(k, r). accountAId r) al) \<and> distinct (map (\<lambda>(k, r). accountBId r) al)"

text \<open>
  A remote service issues new ids when there is a set \<open>known w\<close> of ids, growing with every
  call and with time, such that a task that \<open>insert\<close> returns has an id outside that set
  before the call and inside it after.
\<close>

definition issuesNewIds :: "'w env \<Rightarrow> ('w \<Rightarrow> string set) \<Rightarrow> bool" where
  "issuesNewIds env known \<longleftrightarrow>
     (\<forall>acct l body w t w'. api_tasks_insert env acct l body w = (Inr t, w') \<longrightarrow>
        task_id t \<notin> known w \<and> task_id t \<in> known w') \<and>
     (\<forall>acct l body w r w'. api_tasks_insert env acct l body w = (r, w') \<longrightarrow> known w \<subseteq> known w') \<and>
     (\<forall>acct l i body w r w'. api_tasks_update env acct l i body w = (r, w') \<longrightarrow> known w \<subseteq> known w') \<and>
     (\<forall>acct l i w r w'. api_tasks_delete env acct l i w = (r, w') \<longrightarrow> known w \<subseteq> known w') \<and>
     (\<forall>ms w. known w \<subseteq> known (setTimeout env ms w))"

text \<open>All ids of the ledger lie in a set; the ledger of a run is in order when it is unique
  and the service knows its ids.\<close>

definition idsKnown :: "string set \<Rightarrow> (string \<times> syncRecord) list \<Rightarrow> bool" where
  "idsKnown K al \<longleftrightarrow> (\<forall>(k, r) \<in> set al. accountAId r \<in> K \<and> accountBId r \<in> K)"

definition ledgerOk :: "('w \<Rightarrow> string set) \<Rightarrow> 'w run \<Rightarrow> bool" where
  "ledgerOk known s \<longleftrightarrow>
     pairsUnique (tasks (syncState s)) \<and> idsKnown (known (world s)) (tasks (syncState s))"

text \<open>The ids that the in-memory service will not issue from now on.\<close>

definition oldIds :: "memory \<Rightarrow> string set" where
  "oldIds w = {x. \<forall>n\<ge>clock w. x \<noteq> new_id n}"



text \<open>
  A state in which ids contain dashes. Store A holds the tasks \<open>p\<close> and \<open>p-q\<close>, store B
  the task \<open>q-t1000\<close>; the ledger pairs \<open>p\<close> with \<open>q-t1000\<close>, whose contents are equal and
  unchanged since the last sync, and \<open>p-q\<close> is new. The first pass runs over these
  stores as snapshots; the second pass runs from the state the first one has left, over
  the stores as they are then.
\<close>

definition dashA :: "task list" where
  "dashA = [mk_task ''p'' ''Buy milk'' ''100'', mk_task ''p-q'' ''Call Bob'' ''150'']"

definition dashB :: "task list" where
  "dashB = [mk_task ''q-t1000'' ''Buy milk'' ''100'']"

definition dashLedger :: "(string \<times> syncRecord) list" where
  "dashLedger =
     [(''p-q-t1000'', \<lparr>accountAId = ''p'', accountBId = ''q-t1000'', lastSyncedUpdate = ''100''\<rparr>)]"

definition firstPass :: "memory run" where
  "firstPass = reconcile mem_env theList theList dashA dashB (start dashLedger (worldOf dashA dashB))"

definition secondPass :: "memory run" where
  "secondPass =
     reconcile mem_env theList theList (storeA (world firstPass)) (storeB (world firstPass)) firstPass"

section \<open>Properties of \<^verbatim>\<open>retryWithBackoff\<close>\<close>

declare retryLoop.simps [simp del]

declare show_nat.simps [simp del]

lemma core_error_fields [simp]:
  "syncState (core_error m s) = syncState s" "processedPairs (core_error m s) = processedPairs s"
  "world (core_error m s) = world s" "slept (core_error m s) = slept s"
  "issued (core_error m s) = issued s" "log (core_error m s) = log s @ [Err m]"
  by (simp_all add: core_error_def)

lemma core_info_fields [simp]:
  "syncState (core_info m s) = syncState s" "processedPairs (core_info m s) = processedPairs s"
  "world (core_info m s) = world s" "slept (core_info m s) = slept s"
  "issued (core_info m s) = issued s" "log (core_info m s) = log s @ [Info m]"
  by (simp_all add: core_info_def)

lemma sleep_fields [simp]:
  "syncState (sleep env ms s) = syncState s" "processedPairs (sleep env ms s) = processedPairs s"
  "world (sleep env ms s) = setTimeout env ms (world s)" "slept (sleep env ms s) = slept s @ [ms]"
  "issued (sleep env ms s) = issued s" "log (sleep env ms s) = log s"
  by (simp_all add: sleep_def)

lemma retryLoop_return:
  "attempt \<le> retries \<Longrightarrow> operation (world s) = (Inr v, w) \<Longrightarrow>
   retryLoop env operation name retries attempt s = (Inr v, s\<lparr>world := w\<rparr>)"
  by (subst retryLoop.simps) simp

lemma retryLoop_again:
  "attempt < retries \<Longrightarrow> operation (world s) = (Inl e, w) \<Longrightarrow>
   isRateLimitError e \<or> isServerError env e \<Longrightarrow>
   retryLoop env operation name retries attempt s =
     retryLoop env operation name retries (Suc attempt) (retryState env name retries attempt e w s)"
  by (subst retryLoop.simps) (auto simp add: Let_def retryState_def)

lemma retryLoop_throw:
  "attempt \<le> retries \<Longrightarrow> operation (world s) = (Inl e, w) \<Longrightarrow>
   \<not> (attempt < retries \<and> (isRateLimitError e \<or> isServerError env e)) \<Longrightarrow>
   retryLoop env operation name retries attempt s = (Inl e, s\<lparr>world := w\<rparr>)"
  by (subst retryLoop.simps) (auto simp add: Let_def)

lemma retryLoop_over:
  "retries < attempt \<Longrightarrow>
   retryLoop env operation name retries attempt s =
     (Inl (Error Undefined (Some (''Failed after '' @ show_nat retries @ '' retries''))), s)"
  by (subst retryLoop.simps) simp

lemma retryState_fields [simp]:
  "syncState (retryState env name retries attempt e w s) = syncState s"
  "processedPairs (retryState env name retries attempt e w s) = processedPairs s"
  "issued (retryState env name retries attempt e w s) = issued s"
  "world (retryState env name retries attempt e w s) = setTimeout env (INITIAL_DELAY_MS * 2 ^ attempt) w"
  "slept (retryState env name retries attempt e w s) = slept s @ [INITIAL_DELAY_MS * 2 ^ attempt]"
  by (simp_all add: retryState_def)

lemma retryLoop_cases:
  fixes env :: "'w env" and retries attempt :: nat and s :: "'w run"
    and operation :: "'w \<Rightarrow> (error + 'a) \<times> 'w"
  obtains (over) "retries < attempt"
  | (return) v w where "attempt \<le> retries" "operation (world s) = (Inr v, w)"
  | (again) e w where "attempt < retries" "operation (world s) = (Inl e, w)"
      "isRateLimitError e \<or> isServerError env e"
  | (throw) e w where "attempt \<le> retries" "operation (world s) = (Inl e, w)"
      "\<not> (attempt < retries \<and> (isRateLimitError e \<or> isServerError env e))"
proof (cases "retries < attempt")
  case True
  then show ?thesis by (rule over)
next
  case False
  then have le: "attempt \<le> retries" by simp
  obtain r w where ow: "operation (world s) = (r, w)" by (cases "operation (world s)")
  show ?thesis
  proof (cases r)
    case (Inl e)
    then show ?thesis using le ow again[of e w] throw[of e w] by blast
  next
    case (Inr v)
    then show ?thesis using le ow return by blast
  qed
qed

lemma delays_numeral:
  "map (\<lambda>i. INITIAL_DELAY_MS * 2 ^ i) [0..<MAX_RETRIES] = [1000, 2000, 4000, 8000, 16000]"
  by (simp add: INITIAL_DELAY_MS_def MAX_RETRIES_def upt_conv_Cons)

text \<open>
  Failed attempts, each with a transient error, are retried one after the other: attempt
  \<open>attempt + i\<close> runs in the world that the operation and the delays before it have made.
  The first attempt that returns, that fails with another error, or that is the last one
  allowed gives the result.
\<close>

lemma retryLoop_chain:
  fixes operation :: "'w \<Rightarrow> (error + 'a) \<times> 'w"
  shows "attempt + k \<le> retries \<Longrightarrow>
   \<forall>i<k. \<exists>e. fst (operation (retried env operation
                  (map (\<lambda>i. INITIAL_DELAY_MS * 2 ^ i) [attempt..<attempt + i]) (world s))) = Inl e \<and>
              (isRateLimitError e \<or> isServerError env e) \<Longrightarrow>
   attempt + k = retries \<or>
   (\<forall>e. fst (operation (retried env operation
                  (map (\<lambda>i. INITIAL_DELAY_MS * 2 ^ i) [attempt..<attempt + k]) (world s))) = Inl e \<longrightarrow>
        \<not> isRateLimitError e \<and> \<not> isServerError env e) \<Longrightarrow>
   fst (retryLoop env operation name retries attempt s) =
     fst (operation (retried env operation
            (map (\<lambda>i. INITIAL_DELAY_MS * 2 ^ i) [attempt..<attempt + k]) (world s))) \<and>
   world (snd (retryLoop env operation name retries attempt s)) =
     snd (operation (retried env operation
            (map (\<lambda>i. INITIAL_DELAY_MS * 2 ^ i) [attempt..<attempt + k]) (world s))) \<and>
   slept (snd (retryLoop env operation name retries attempt s)) =
     slept s @ map (\<lambda>i. INITIAL_DELAY_MS * 2 ^ i) [attempt..<attempt + k]"
proof (induction k arbitrary: attempt s)
  case 0
  obtain r w where ow: "operation (world s) = (r, w)" by (cases "operation (world s)")
  from 0(1) have le: "attempt \<le> retries" by simp
  show ?case
  proof (cases r)
    case (Inr v)
    with ow le show ?thesis by (simp add: retryLoop_return)
  next
    case (Inl e)
    with 0(3) ow have nt: "\<not> (attempt < retries \<and> (isRateLimitError e \<or> isServerError env e))"
      by auto
    from ow Inl have ow': "operation (world s) = (Inl e, w)" by simp
    from retryLoop_throw[where operation=operation, OF le ow' nt] ow'
    show ?thesis by simp
  qed
next
  case (Suc k)
  from Suc.prems(1) have lt: "attempt < retries" by simp
  from Suc.prems(2) have "\<exists>e. fst (operation (world s)) = Inl e \<and>
      (isRateLimitError e \<or> isServerError env e)"
    by (auto dest: spec[where x=0])
  then obtain e w where ow: "operation (world s) = (Inl e, w)"
    and tr: "isRateLimitError e \<or> isServerError env e"
    by (metis prod.collapse)
  let ?s' = "retryState env name retries attempt e w s"
  have up: "\<And>j. [attempt..<attempt + Suc j] = attempt # [Suc attempt..<Suc attempt + j]"
    by (simp add: upt_conv_Cons)
  have w': "\<And>j. retried env operation (map (\<lambda>i. INITIAL_DELAY_MS * 2 ^ i) [attempt..<attempt + Suc j]) (world s) =
      retried env operation (map (\<lambda>i. INITIAL_DELAY_MS * 2 ^ i) [Suc attempt..<Suc attempt + j]) (world ?s')"
    unfolding up using ow by simp
  have 1: "Suc attempt + k \<le> retries" using Suc.prems(1) by simp
  have 2: "\<forall>i<k. \<exists>e. fst (operation (retried env operation
                  (map (\<lambda>i. INITIAL_DELAY_MS * 2 ^ i) [Suc attempt..<Suc attempt + i]) (world ?s'))) = Inl e \<and>
              (isRateLimitError e \<or> isServerError env e)"
  proof (intro allI impI)
    fix i assume "i < k"
    then have "Suc i < Suc k" by simp
    with Suc.prems(2) have "\<exists>e. fst (operation (retried env operation
                  (map (\<lambda>i. INITIAL_DELAY_MS * 2 ^ i) [attempt..<attempt + Suc i]) (world s))) = Inl e \<and>
              (isRateLimitError e \<or> isServerError env e)" by blast
    then show "\<exists>e. fst (operation (retried env operation
                  (map (\<lambda>i. INITIAL_DELAY_MS * 2 ^ i) [Suc attempt..<Suc attempt + i]) (world ?s'))) = Inl e \<and>
              (isRateLimitError e \<or> isServerError env e)"
      unfolding w' .
  qed
  have 3: "Suc attempt + k = retries \<or>
   (\<forall>e. fst (operation (retried env operation
                  (map (\<lambda>i. INITIAL_DELAY_MS * 2 ^ i) [Suc attempt..<Suc attempt + k]) (world ?s'))) = Inl e \<longrightarrow>
        \<not> isRateLimitError e \<and> \<not> isServerError env e)"
    using Suc.prems(3) unfolding w' by simp
  have r: "retryLoop env operation name retries attempt s =
      retryLoop env operation name retries (Suc attempt) ?s'"
    by (rule retryLoop_again[where operation=operation, OF lt ow tr])
  have sl: "slept ?s' @ map (\<lambda>i. INITIAL_DELAY_MS * 2 ^ i) [Suc attempt..<Suc attempt + k] =
      slept s @ map (\<lambda>i. INITIAL_DELAY_MS * 2 ^ i) [attempt..<attempt + Suc k]"
    unfolding up by simp
  from Suc.IH[OF 1 2 3] show ?case
    unfolding r w' sl .
qed

text \<open>Whatever the operation does, the delays slept are the first few of the schedule.\<close>

lemma retryLoop_slept:
  "attempt \<le> retries \<Longrightarrow>
   \<exists>k. attempt \<le> k \<and> k \<le> retries \<and>
       slept (snd (retryLoop env operation name retries attempt s)) =
         slept s @ map (\<lambda>i. INITIAL_DELAY_MS * 2 ^ i) [attempt..<k]"
proof (induction "retries - attempt" arbitrary: attempt s)
  case 0
  then have eq: "attempt = retries" by simp
  show ?case
  proof (cases rule: retryLoop_cases[where env=env and retries=retries and attempt=attempt and operation=operation and s=s])
    case over
    then show ?thesis using eq by simp
  next
    case (return v w)
    then show ?thesis using eq by (intro exI[of _ attempt]) (simp add: retryLoop_return)
  next
    case (again e w)
    then show ?thesis using eq by simp
  next
    case (throw e w)
    then show ?thesis using eq by (intro exI[of _ attempt]) (simp add: retryLoop_throw)
  qed
next
  case (Suc n)
  then have lt: "attempt < retries" by simp
  show ?case
  proof (cases rule: retryLoop_cases[where env=env and retries=retries and attempt=attempt and operation=operation and s=s])
    case over
    then show ?thesis using lt by simp
  next
    case (return v w)
    then show ?thesis using lt by (intro exI[of _ attempt]) (simp add: retryLoop_return)
  next
    case (again e w)
    from Suc(2) have n: "n = retries - Suc attempt" by simp
    from lt have le: "Suc attempt \<le> retries" by simp
    from Suc(1)[OF n le, of "retryState env name retries attempt e w s"]
    obtain k where k: "Suc attempt \<le> k" "k \<le> retries"
      "slept (snd (retryLoop env operation name retries (Suc attempt) (retryState env name retries attempt e w s))) =
       slept (retryState env name retries attempt e w s) @ map (\<lambda>i. INITIAL_DELAY_MS * 2 ^ i) [Suc attempt..<k]"
      by blast
    from k(1) have up: "[attempt..<k] = attempt # [Suc attempt..<k]"
      by (simp add: upt_conv_Cons)
    show ?thesis
      using k by (intro exI[of _ k]) (simp add: retryLoop_again[where operation=operation, OF again] up)
  next
    case (throw e w)
    then show ?thesis using lt by (intro exI[of _ attempt]) (simp add: retryLoop_throw)
  qed
qed

lemma take_delays:
  "k \<le> MAX_RETRIES \<Longrightarrow>
   map (\<lambda>i. INITIAL_DELAY_MS * 2 ^ i) [0..<k] = take k [1000, 2000, 4000, 8000, 16000]"
proof -
  assume "k \<le> MAX_RETRIES"
  then have "map (\<lambda>i. INITIAL_DELAY_MS * 2 ^ i) [0..<k] =
        take k (map (\<lambda>i. INITIAL_DELAY_MS * 2 ^ i) [0..<MAX_RETRIES])"
    by (simp add: take_map min_def)
  then show ?thesis by (simp only: delays_numeral)
qed

text \<open>
  Claim C8. Every call goes through \<^verbatim>\<open>retryWithBackoff\<close>. Whatever the operation
  does, at most five delays are slept and they are the first ones of 1000, 2000, 4000,
  8000, 16000 ms. When the first \<open>k\<close> attempts fail with a transient error (rate limit,
  code of 500 or more, also written as a string, connection reset), each is followed by
  its delay and by a new call of the operation, in the world that the failed call and the
  delay have left: the result is that of attempt \<open>k\<close>, the first one that returns or
  fails with an error that is not transient, or the sixth one, whose error is thrown to
  the caller; the outside world is the one that attempt has left and the delays slept are
  the first \<open>k\<close> of the schedule. An error that is not transient is thrown at once, at the
  first call and at any later one, with no sleep and no further call.
\<close>

theorem retryWithBackoff_policy:
  "(\<exists>k\<le>5. slept (snd (retryWithBackoff env operation name s)) =
             slept s @ take k [1000, 2000, 4000, 8000, 16000]) \<and>
   (\<forall>k\<le>5.
      (\<forall>i<k. \<exists>e. fst (operation (retried env operation
                       (take i [1000, 2000, 4000, 8000, 16000]) (world s))) = Inl e \<and>
                   (isRateLimitError e \<or> isServerError env e)) \<and>
      (k = 5 \<or>
       (\<forall>e. fst (operation (retried env operation
                   (take k [1000, 2000, 4000, 8000, 16000]) (world s))) = Inl e \<longrightarrow>
            \<not> isRateLimitError e \<and> \<not> isServerError env e)) \<longrightarrow>
      fst (retryWithBackoff env operation name s) =
        fst (operation (retried env operation (take k [1000, 2000, 4000, 8000, 16000]) (world s))) \<and>
      world (snd (retryWithBackoff env operation name s)) =
        snd (operation (retried env operation (take k [1000, 2000, 4000, 8000, 16000]) (world s))) \<and>
      slept (snd (retryWithBackoff env operation name s)) =
        slept s @ take k [1000, 2000, 4000, 8000, 16000]) \<and>
   (\<forall>e w. operation (world s) = (Inl e, w) \<and> \<not> isRateLimitError e \<and> \<not> isServerError env e \<longrightarrow>
      retryWithBackoff env operation name s = (Inl e, s\<lparr>world := w\<rparr>)) \<and>
   (\<forall>e w attempt. attempt \<le> MAX_RETRIES \<and> operation (world s) = (Inl e, w) \<and>
      \<not> isRateLimitError e \<and> \<not> isServerError env e \<longrightarrow>
      retryLoop env operation name MAX_RETRIES attempt s = (Inl e, s\<lparr>world := w\<rparr>))"
proof (intro conjI impI allI)
  obtain k where k: "k \<le> MAX_RETRIES"
    "slept (snd (retryLoop env operation name MAX_RETRIES 0 s)) =
       slept s @ map (\<lambda>i. INITIAL_DELAY_MS * 2 ^ i) [0..<k]"
    using retryLoop_slept[of 0 MAX_RETRIES env operation name s] by auto
  with take_delays[OF k(1)]
  show "\<exists>k\<le>5. slept (snd (retryWithBackoff env operation name s)) =
             slept s @ take k [1000, 2000, 4000, 8000, 16000]"
    by (intro exI[of _ k]) (simp add: retryWithBackoff_def MAX_RETRIES_def)
next
  fix k :: nat
  assume k: "k \<le> 5"
  assume h: "(\<forall>i<k. \<exists>e. fst (operation (retried env operation
                       (take i [1000, 2000, 4000, 8000, 16000]) (world s))) = Inl e \<and>
                   (isRateLimitError e \<or> isServerError env e)) \<and>
      (k = 5 \<or>
       (\<forall>e. fst (operation (retried env operation
                   (take k [1000, 2000, 4000, 8000, 16000]) (world s))) = Inl e \<longrightarrow>
            \<not> isRateLimitError e \<and> \<not> isServerError env e))"
  from k have km: "k \<le> MAX_RETRIES" by (simp add: MAX_RETRIES_def)
  have 1: "0 + k \<le> MAX_RETRIES" using km by simp
  have 2: "\<forall>i<k. \<exists>e. fst (operation (retried env operation
                  (map (\<lambda>i. INITIAL_DELAY_MS * 2 ^ i) [0..<0 + i]) (world s))) = Inl e \<and>
              (isRateLimitError e \<or> isServerError env e)"
  proof (intro allI impI)
    fix i assume "i < k"
    with km have "i \<le> MAX_RETRIES" by simp
    from take_delays[OF this] h \<open>i < k\<close>
    show "\<exists>e. fst (operation (retried env operation
                  (map (\<lambda>i. INITIAL_DELAY_MS * 2 ^ i) [0..<0 + i]) (world s))) = Inl e \<and>
              (isRateLimitError e \<or> isServerError env e)"
      by simp
  qed
  have 3: "0 + k = MAX_RETRIES \<or>
   (\<forall>e. fst (operation (retried env operation
                  (map (\<lambda>i. INITIAL_DELAY_MS * 2 ^ i) [0..<0 + k]) (world s))) = Inl e \<longrightarrow>
        \<not> isRateLimitError e \<and> \<not> isServerError env e)"
    using h take_delays[OF km] by (simp add: MAX_RETRIES_def)
  from retryLoop_chain[OF 1 2 3, of name]
  show "fst (retryWithBackoff env operation name s) =
        fst (operation (retried env operation (take k [1000, 2000, 4000, 8000, 16000]) (world s)))"
    and "world (snd (retryWithBackoff env operation name s)) =
        snd (operation (retried env operation (take k [1000, 2000, 4000, 8000, 16000]) (world s)))"
    and "slept (snd (retryWithBackoff env operation name s)) =
        slept s @ take k [1000, 2000, 4000, 8000, 16000]"
    using take_delays[OF km] by (simp_all add: retryWithBackoff_def)
next
  fix e w
  assume "operation (world s) = (Inl e, w) \<and> \<not> isRateLimitError e \<and> \<not> isServerError env e"
  then show "retryWithBackoff env operation name s = (Inl e, s\<lparr>world := w\<rparr>)"
    by (simp add: retryWithBackoff_def retryLoop_throw)
next
  fix e w attempt
  assume "attempt \<le> MAX_RETRIES \<and> operation (world s) = (Inl e, w) \<and>
      \<not> isRateLimitError e \<and> \<not> isServerError env e"
  then show "retryLoop env operation name MAX_RETRIES attempt s = (Inl e, s\<lparr>world := w\<rparr>)"
    by (simp add: retryLoop_throw)
qed

theorem retryWithBackoff_policy_witness:
  "fst (retryWithBackoff mem_env (failsUntil 3000 (StrCode ''503'')) ''deleteTask: a1''
      (start [] emptyWorld)) = Inr 3000 \<and>
   clock (world (snd (retryWithBackoff mem_env (failsUntil 3000 (StrCode ''503'')) ''deleteTask: a1''
      (start [] emptyWorld)))) = 3000 \<and>
   slept (snd (retryWithBackoff mem_env (failsUntil 3000 (StrCode ''503'')) ''deleteTask: a1''
      (start [] emptyWorld))) = [1000, 2000] \<and>
   fst (retryWithBackoff mem_env (failsUntil 40000 (Num 429)) ''deleteTask: a1''
      (start [] emptyWorld)) = Inl (Error (Num 429) None) \<and>
   clock (world (snd (retryWithBackoff mem_env (failsUntil 40000 (Num 429)) ''deleteTask: a1''
      (start [] emptyWorld)))) = 31000 \<and>
   slept (snd (retryWithBackoff mem_env (failsUntil 40000 (Num 429)) ''deleteTask: a1''
      (start [] emptyWorld))) = [1000, 2000, 4000, 8000, 16000] \<and>
   retryWithBackoff mem_env (failsUntil 3000 (Num 403)) ''deleteTask: a1''
      (start [] emptyWorld) = (Inl (Error (Num 403) None), start [] emptyWorld)"
proof -
  let ?s = "start [] emptyWorld"
  let ?D = "[1000, 2000, 4000, 8000, 16000] :: nat list"
  let ?f = "failsUntil 3000 (StrCode ''503'')"
  let ?g = "failsUntil 40000 (Num 429)"
  let ?h = "failsUntil 3000 (Num 403)"
  have st: "setTimeout mem_env = (\<lambda>ms w. w\<lparr>clock := clock w + ms\<rparr>)"
    by (simp add: mem_env_def)
  have t1: "isServerError mem_env (Error (StrCode ''503'') None)" by code_simp
  have t2: "isRateLimitError (Error (Num 429) None)" by code_simp
  have t3: "\<not> isRateLimitError (Error (Num 403) None) \<and> \<not> isServerError mem_env (Error (Num 403) None)"
    by code_simp
  have f0: "fst (?f (retried mem_env ?f (take 0 ?D) (world ?s))) = Inl (Error (StrCode ''503'') None)"
    by (simp add: failsUntil_def start_def emptyWorld_def st)
  have f1: "fst (?f (retried mem_env ?f (take 1 ?D) (world ?s))) = Inl (Error (StrCode ''503'') None)"
    by (simp add: failsUntil_def start_def emptyWorld_def st)
  have f2: "?f (retried mem_env ?f (take 2 ?D) (world ?s)) = (Inr 3000, emptyWorld\<lparr>clock := 3000\<rparr>)"
    by (simp add: failsUntil_def start_def emptyWorld_def st)
  have g0: "fst (?g (retried mem_env ?g (take 0 ?D) (world ?s))) = Inl (Error (Num 429) None)"
    by (simp add: failsUntil_def start_def emptyWorld_def st)
  have g1: "fst (?g (retried mem_env ?g (take 1 ?D) (world ?s))) = Inl (Error (Num 429) None)"
    by (simp add: failsUntil_def start_def emptyWorld_def st)
  have g2: "fst (?g (retried mem_env ?g (take 2 ?D) (world ?s))) = Inl (Error (Num 429) None)"
    by (simp add: failsUntil_def start_def emptyWorld_def st)
  have g3: "fst (?g (retried mem_env ?g (take 3 ?D) (world ?s))) = Inl (Error (Num 429) None)"
    by (simp add: failsUntil_def start_def emptyWorld_def st)
  have g4: "fst (?g (retried mem_env ?g (take 4 ?D) (world ?s))) = Inl (Error (Num 429) None)"
    by (simp add: failsUntil_def start_def emptyWorld_def st)
  have g5: "?g (retried mem_env ?g (take 5 ?D) (world ?s)) =
      (Inl (Error (Num 429) None), emptyWorld\<lparr>clock := 31000\<rparr>)"
    by (simp add: failsUntil_def start_def emptyWorld_def st)
  have a: "(\<forall>i<2. \<exists>e. fst (?f (retried mem_env ?f (take i ?D) (world ?s))) = Inl e \<and>
                   (isRateLimitError e \<or> isServerError mem_env e)) \<and>
      ((2::nat) = 5 \<or>
       (\<forall>e. fst (?f (retried mem_env ?f (take 2 ?D) (world ?s))) = Inl e \<longrightarrow>
            \<not> isRateLimitError e \<and> \<not> isServerError mem_env e))"
  proof (intro conjI allI impI)
    fix i :: nat assume "i < 2"
    then consider "i = 0" | "i = 1" by linarith
    then show "\<exists>e. fst (?f (retried mem_env ?f (take i ?D) (world ?s))) = Inl e \<and>
                   (isRateLimitError e \<or> isServerError mem_env e)"
      using f0 f1 t1 by cases blast+
  next
    show "(2::nat) = 5 \<or>
       (\<forall>e. fst (?f (retried mem_env ?f (take 2 ?D) (world ?s))) = Inl e \<longrightarrow>
            \<not> isRateLimitError e \<and> \<not> isServerError mem_env e)"
      unfolding f2 by simp
  qed
  have b: "(\<forall>i<5. \<exists>e. fst (?g (retried mem_env ?g (take i ?D) (world ?s))) = Inl e \<and>
                   (isRateLimitError e \<or> isServerError mem_env e)) \<and>
      ((5::nat) = 5 \<or>
       (\<forall>e. fst (?g (retried mem_env ?g (take 5 ?D) (world ?s))) = Inl e \<longrightarrow>
            \<not> isRateLimitError e \<and> \<not> isServerError mem_env e))"
  proof (intro conjI allI impI)
    fix i :: nat assume "i < 5"
    then consider "i = 0" | "i = 1" | "i = 2" | "i = 3" | "i = 4" by linarith
    then show "\<exists>e. fst (?g (retried mem_env ?g (take i ?D) (world ?s))) = Inl e \<and>
                   (isRateLimitError e \<or> isServerError mem_env e)"
      using g0 g1 g2 g3 g4 t2 by cases blast+
  next
    show "(5::nat) = 5 \<or>
       (\<forall>e. fst (?g (retried mem_env ?g (take 5 ?D) (world ?s))) = Inl e \<longrightarrow>
            \<not> isRateLimitError e \<and> \<not> isServerError mem_env e)"
      by simp
  qed
  have c: "?h (world ?s) = (Inl (Error (Num 403) None), world ?s)"
    by (simp add: failsUntil_def start_def emptyWorld_def st)
  have le: "(2::nat) \<le> 5" "(5::nat) \<le> 5" by simp_all
  have e: "?s\<lparr>world := world ?s\<rparr> = ?s" by simp
  have sl: "slept ?s = []" by (simp add: start_def)
  note A = retryWithBackoff_policy[of mem_env ?f "''deleteTask: a1''" ?s,
      THEN conjunct2, THEN conjunct1, rule_format, of 2, OF le(1) a]
  note B = retryWithBackoff_policy[of mem_env ?g "''deleteTask: a1''" ?s,
      THEN conjunct2, THEN conjunct1, rule_format, of 5, OF le(2) b]
  note C = retryWithBackoff_policy[of mem_env ?h "''deleteTask: a1''" ?s,
      THEN conjunct2, THEN conjunct2, THEN conjunct1, rule_format, OF conjI[OF c t3]]
  from A B C show ?thesis
    unfolding f2 g5 e sl by simp
qed

section \<open>Tasks that both exist\<close>

lemma core_notice_fields [simp]:
  "syncState (core_notice m s) = syncState s" "processedPairs (core_notice m s) = processedPairs s"
  "world (core_notice m s) = world s" "slept (core_notice m s) = slept s"
  "issued (core_notice m s) = issued s" "log (core_notice m s) = log s @ [Notice m]"
  by (simp_all add: core_notice_def)

lemma core_warning_fields [simp]:
  "syncState (core_warning m s) = syncState s" "processedPairs (core_warning m s) = processedPairs s"
  "world (core_warning m s) = world s" "slept (core_warning m s) = slept s"
  "issued (core_warning m s) = issued s" "log (core_warning m s) = log s @ [Warning m]"
  by (simp_all add: core_warning_def)

lemma record_call_fields [simp]:
  "syncState (record_call c s) = syncState s" "processedPairs (record_call c s) = processedPairs s"
  "world (record_call c s) = world s" "slept (record_call c s) = slept s"
  "issued (record_call c s) = issued s @ [c]" "log (record_call c s) = log s"
  by (simp_all add: record_call_def)

lemma deletePair_fields [simp]:
  "tasks (syncState (deletePair key s)) = AList.delete key (tasks (syncState s))"
  "lastSyncTime (syncState (deletePair key s)) = lastSyncTime (syncState s)"
  "processedPairs (deletePair key s) = processedPairs s"
  "world (deletePair key s) = world s" "slept (deletePair key s) = slept s"
  "issued (deletePair key s) = issued s" "log (deletePair key s) = log s"
  by (simp_all add: deletePair_def)

lemma putPair_fields [simp]:
  "tasks (syncState (putPair key r s)) = AList.update key r (tasks (syncState s))"
  "lastSyncTime (syncState (putPair key r s)) = lastSyncTime (syncState s)"
  "processedPairs (putPair key r s) = processedPairs s"
  "world (putPair key r s) = world s" "slept (putPair key r s) = slept s"
  "issued (putPair key r s) = issued s" "log (putPair key r s) = log s"
  by (simp_all add: putPair_def)

lemma setLastSyncedUpdate_fields [simp]:
  "tasks (syncState (setLastSyncedUpdate k x s)) =
     AList.map_entry k (\<lambda>r. r\<lparr>lastSyncedUpdate := x\<rparr>) (tasks (syncState s))"
  "lastSyncTime (syncState (setLastSyncedUpdate k x s)) = lastSyncTime (syncState s)"
  "processedPairs (setLastSyncedUpdate k x s) = processedPairs s"
  "world (setLastSyncedUpdate k x s) = world s" "slept (setLastSyncedUpdate k x s) = slept s"
  "issued (setLastSyncedUpdate k x s) = issued s" "log (setLastSyncedUpdate k x s) = log s"
  by (simp_all add: setLastSyncedUpdate_def)

subsection \<open>What a retried call leaves alone, and what it depends on\<close>

lemma retryLoop_frame:
  "syncState (snd (retryLoop env operation name retries attempt s)) = syncState s \<and>
   processedPairs (snd (retryLoop env operation name retries attempt s)) = processedPairs s \<and>
   issued (snd (retryLoop env operation name retries attempt s)) = issued s"
proof (induction "Suc retries - attempt" arbitrary: attempt s)
  case 0
  then show ?case by (simp add: retryLoop_over)
next
  case (Suc n)
  show ?case
  proof (cases rule: retryLoop_cases[where env=env and retries=retries and attempt=attempt and operation=operation and s=s])
    case over
    then show ?thesis by (simp add: retryLoop_over)
  next
    case (return v w)
    then show ?thesis by (simp add: retryLoop_return)
  next
    case (again e w)
    from Suc(2) again(1) have "n = Suc retries - Suc attempt" by simp
    from Suc(1)[OF this] show ?thesis
      by (simp add: retryLoop_again[where operation=operation, OF again])
  next
    case (throw e w)
    then show ?thesis by (simp add: retryLoop_throw)
  qed
qed

lemma retryLoop_world:
  "world s = world s' \<Longrightarrow>
   fst (retryLoop env operation name retries attempt s) =
     fst (retryLoop env operation name' retries attempt s') \<and>
   world (snd (retryLoop env operation name retries attempt s)) =
     world (snd (retryLoop env operation name' retries attempt s'))"
proof (induction "Suc retries - attempt" arbitrary: attempt s s')
  case 0
  then show ?case by (simp add: retryLoop_over)
next
  case (Suc n)
  show ?case
  proof (cases rule: retryLoop_cases[where env=env and retries=retries and attempt=attempt and operation=operation and s=s])
    case over
    then show ?thesis using Suc(3) by (simp add: retryLoop_over)
  next
    case (return v w)
    then show ?thesis using Suc(3) by (simp add: retryLoop_return)
  next
    case (again e w)
    from Suc(2) again(1) have n: "n = Suc retries - Suc attempt" by simp
    from again(2) Suc(3) have ow': "operation (world s') = (Inl e, w)" by simp
    have "world (retryState env name retries attempt e w s) =
          world (retryState env name' retries attempt e w s')" by simp
    from Suc(1)[OF n this] show ?thesis
      by (simp add: retryLoop_again[where operation=operation, OF again]
            retryLoop_again[where operation=operation, OF again(1) ow' again(3)])
  next
    case (throw e w)
    then show ?thesis using Suc(3) by (simp add: retryLoop_throw)
  qed
qed

lemma retryWithBackoff_frame [simp]:
  "syncState (snd (retryWithBackoff env operation name s)) = syncState s"
  "processedPairs (snd (retryWithBackoff env operation name s)) = processedPairs s"
  "issued (snd (retryWithBackoff env operation name s)) = issued s"
  by (simp_all add: retryWithBackoff_def retryLoop_frame)

lemma retryWithBackoff_world:
  "world s = world s' \<Longrightarrow>
   fst (retryWithBackoff env operation name s) = fst (retryWithBackoff env operation name' s')"
  "world s = world s' \<Longrightarrow>
   world (snd (retryWithBackoff env operation name s)) =
     world (snd (retryWithBackoff env operation name' s'))"
  using retryLoop_world[of s s' env operation name MAX_RETRIES 0 name']
  by (simp_all add: retryWithBackoff_def)

lemma createTask_frame [simp]:
  "syncState (snd (createTask env acct l t s)) = syncState s"
  "processedPairs (snd (createTask env acct l t s)) = processedPairs s"
  "issued (snd (createTask env acct l t s)) = issued s @ [CreateTask acct (body_of t)]"
  by (simp_all add: createTask_def)

lemma createTask_world:
  "world s = world s' \<Longrightarrow> fst (createTask env acct l t s) = fst (createTask env acct l t s')"
  by (simp add: createTask_def retryWithBackoff_world(1)[where s'="record_call (CreateTask acct (body_of t)) s'"])

lemma updateTask_frame [simp]:
  "syncState (snd (updateTask env acct l i t s)) = syncState s"
  "processedPairs (snd (updateTask env acct l i t s)) = processedPairs s"
  "issued (snd (updateTask env acct l i t s)) =
     issued s @ (if i = [] then [] else [UpdateTask acct i (body_of t)])"
  by (simp_all add: updateTask_def)

lemma updateTask_world:
  "world s = world s' \<Longrightarrow> fst (updateTask env acct l i t s) = fst (updateTask env acct l i t s')"
  by (simp add: updateTask_def retryWithBackoff_world(1)[where s'="record_call (UpdateTask acct i (body_of t)) s'"])

lemma deleteTask_frame [simp]:
  "syncState (snd (deleteTask env acct l i s)) = syncState s"
  "processedPairs (snd (deleteTask env acct l i s)) = processedPairs s"
  "issued (snd (deleteTask env acct l i s)) = issued s @ [DeleteTask acct i]"
  by (simp_all add: deleteTask_def)

lemma deleteTask_world:
  "world s = world s' \<Longrightarrow> fst (deleteTask env acct l i s) = fst (deleteTask env acct l i s')"
  by (simp add: deleteTask_def retryWithBackoff_world(1)[where s'="record_call (DeleteTask acct i) s'"])

subsection \<open>The shared \<^verbatim>\<open>try\<close> statement\<close>

lemma copyOnto_processedPairs [simp]:
  "processedPairs (copyOnto env dst l i src equal say k r s) = processedPairs s"
  by (simp add: copyOnto_def updateFailed_def Let_def case_prod_beta split: sum.splits)

lemma copyOnto_issued [simp]:
  "issued (copyOnto env dst l i src equal say k r s) =
     issued s @ (if equal \<or> i = [] then [] else [UpdateTask dst i (body_of src)])"
  by (simp add: copyOnto_def updateFailed_def Let_def case_prod_beta split: sum.splits)

lemma copyOnto_equal_world:
  "equal \<Longrightarrow> world (copyOnto env dst l i src equal say k r s) = world s"
  by (simp add: copyOnto_def)

lemma copyOnto_tasks_done:
  "equal \<or> \<not> isl (fst (updateTask env dst l i src s)) \<Longrightarrow>
   tasks (syncState (copyOnto env dst l i src equal say k r s)) =
     AList.map_entry k (\<lambda>r. r\<lparr>lastSyncedUpdate := updated src\<rparr>) (tasks (syncState s))"
  by (auto simp add: copyOnto_def Let_def case_prod_beta split: sum.splits)

lemma copyOnto_tasks_failed:
  "\<not> equal \<Longrightarrow> fst (updateTask env dst l i src s) = Inl e \<Longrightarrow>
   tasks (syncState (copyOnto env dst l i src equal say k r s)) =
     (if code e = Num 404 \<or> code e = Num 400
      then AList.delete (pairKey r) (tasks (syncState s)) else tasks (syncState s))"
  by (simp add: copyOnto_def updateFailed_def Let_def case_prod_beta split: sum.splits)


lemma fst_updateTask_core_info [simp]:
  "fst (updateTask env acct l i t (core_info m s)) = fst (updateTask env acct l i t s)"
  by (rule updateTask_world) simp

lemma fst_createTask_core_info [simp]:
  "fst (createTask env acct l t (core_info m s)) = fst (createTask env acct l t s)"
  by (rule createTask_world) simp

lemma fst_deleteTask_core_info [simp]:
  "fst (deleteTask env acct l i (core_info m s)) = fst (deleteTask env acct l i s)"
  by (rule deleteTask_world) simp

lemma map_of_map_entry_found:
  "distinct (map fst al) \<Longrightarrow> find P al = Some (k, r) \<Longrightarrow>
   map_of (AList.map_entry k f al) = (map_of al)(k \<mapsto> f r)"
proof -
  assume d: "distinct (map fst al)" and f: "find P al = Some (k, r)"
  from f have "(k, r) \<in> set al" by (auto simp add: find_Some_iff)
  with d have "map_of al k = Some r" by simp
  then show ?thesis by (auto simp add: map_of_map_entry fun_eq_iff)
qed


subsection \<open>A call that is answered at the first attempt\<close>

lemma retryWithBackoff_first:
  "operation (world s) = (res, w) \<Longrightarrow>
   \<forall>e. res = Inl e \<longrightarrow> \<not> isRateLimitError e \<and> \<not> isServerError env e \<Longrightarrow>
   retryWithBackoff env operation name s = (res, s\<lparr>world := w\<rparr>)"
  by (cases res) (simp_all add: retryWithBackoff_def retryLoop_return retryLoop_throw)

lemma createTask_first:
  "api_tasks_insert env acct l (body_of t) (world s) = (res, w) \<Longrightarrow>
   \<forall>e. res = Inl e \<longrightarrow> \<not> isRateLimitError e \<and> \<not> isServerError env e \<Longrightarrow>
   createTask env acct l t s = (res, (record_call (CreateTask acct (body_of t)) s)\<lparr>world := w\<rparr>)"
  by (simp add: createTask_def retryWithBackoff_first)

lemma updateTask_first:
  "i \<noteq> [] \<Longrightarrow> api_tasks_update env acct l i (body_of t) (world s) = (res, w) \<Longrightarrow>
   \<forall>e. res = Inl e \<longrightarrow> \<not> isRateLimitError e \<and> \<not> isServerError env e \<Longrightarrow>
   updateTask env acct l i t s = (res, (record_call (UpdateTask acct i (body_of t)) s)\<lparr>world := w\<rparr>)"
  by (simp add: updateTask_def retryWithBackoff_first)


lemma world_createTask_core_info [simp]:
  "world (snd (createTask env acct l t (core_info m s))) = world (snd (createTask env acct l t s))"
  by (simp add: createTask_def
        retryWithBackoff_world(2)[where s'="record_call (CreateTask acct (body_of t)) s"])

lemma world_updateTask_core_info [simp]:
  "world (snd (updateTask env acct l i t (core_info m s))) = world (snd (updateTask env acct l i t s))"
  by (simp add: updateTask_def
        retryWithBackoff_world(2)[where s'="record_call (UpdateTask acct i (body_of t)) s"])

lemma world_deleteTask_core_info [simp]:
  "world (snd (deleteTask env acct l i (core_info m s))) = world (snd (deleteTask env acct l i s))"
  by (simp add: deleteTask_def
        retryWithBackoff_world(2)[where s'="record_call (DeleteTask acct i) s"])

lemma copyOnto_world:
  "world (copyOnto env dst l i src equal say k r s) =
     (if equal then world s else world (snd (updateTask env dst l i src s)))"
  by (simp add: copyOnto_def updateFailed_def Let_def case_prod_beta split: sum.splits)





text \<open>
  Claim C2, as stated, fails: with \<open>a.updated = b.updated\<close>, both later than the last
  sync, the test \<^verbatim>\<open>aUpdated > bUpdated\<close> is false and the \<^verbatim>\<open>else\<close> branch copies B onto
  A. Here both tasks are updated at 200, last synced at 100: the one call is an update of
  A's task with B's title, and afterwards both stores hold B's title.
\<close>

theorem tie_prefers_A_counterexample:
  "date_gt mem_env ''200'' ''100'' \<and> mem_dateValue ''200'' = mem_dateValue ''200'' \<and>
   issued (syncTaskA mem_env theList theList (taskMap [mk_task ''b1'' ''Buy bread'' ''200''])
      (mk_task ''a1'' ''Buy milk'' ''200'')
      (start (pairAB ''100'') (worldAB (mk_task ''a1'' ''Buy milk'' ''200'') (mk_task ''b1'' ''Buy bread'' ''200'')))) =
     [UpdateTask AccountA ''a1'' (body_of (mk_task ''b1'' ''Buy bread'' ''200''))] \<and>
   map title (storeA (world (syncTaskA mem_env theList theList (taskMap [mk_task ''b1'' ''Buy bread'' ''200''])
      (mk_task ''a1'' ''Buy milk'' ''200'')
      (start (pairAB ''100'') (worldAB (mk_task ''a1'' ''Buy milk'' ''200'') (mk_task ''b1'' ''Buy bread'' ''200'')))))) =
     [''Buy bread''] \<and>
   map title (storeB (world (syncTaskA mem_env theList theList (taskMap [mk_task ''b1'' ''Buy bread'' ''200''])
      (mk_task ''a1'' ''Buy milk'' ''200'')
      (start (pairAB ''100'') (worldAB (mk_task ''a1'' ''Buy milk'' ''200'') (mk_task ''b1'' ''Buy bread'' ''200'')))))) =
     [''Buy bread'']"
  by code_simp

text \<open>
  Claim C2, amended. On a tie after a true conflict B's content wins: the loop body calls
  \<open>updateTask\<close> on A's task with B's four fields (no call, and no change of the outside
  world, when they are equal already). The request \<^verbatim>\<open>tasks.update\<close> for A's task with
  B's four fields is made in the outside world as the body found it: when the service
  answers it with a task, the outside world after the body is the one that request has
  left, and the record's \<open>lastSyncedUpdate\<close> is \<open>b.updated\<close>, as it is whenever the call
  returns, retries included.
\<close>

theorem tie_prefers_B:
  assumes "distinct (map fst (tasks (syncState s)))"
    and "find (\<lambda>(k, r). accountAId r = task_id a) (tasks (syncState s)) = Some (k, r)"
    and "tasksBMap (accountBId r) = Some b"
    and "date_gt env (updated a) (lastSyncedUpdate r)"
    and "date_gt env (updated b) (lastSyncedUpdate r)"
    and "dateValue env (updated a) = dateValue env (updated b)"
    and "task_id a \<noteq> []"
  shows
   "issued (syncTaskA env taskListA taskListB tasksBMap a s) =
      issued s @ (if tasksAreEqual a b then [] else [UpdateTask AccountA (task_id a) (body_of b)]) \<and>
    (tasksAreEqual a b \<or>
     \<not> isl (fst (updateTask env AccountA (list_id taskListA) (task_id a) b s)) \<longrightarrow>
       map_of (tasks (syncState (syncTaskA env taskListA taskListB tasksBMap a s))) =
         (map_of (tasks (syncState s)))(k \<mapsto> r\<lparr>lastSyncedUpdate := updated b\<rparr>)) \<and>
    (\<not> tasksAreEqual a b \<longrightarrow>
       (\<forall>t w'. api_tasks_update env AccountA (list_id taskListA) (task_id a) (body_of b) (world s) =
                 (Inr t, w') \<longrightarrow>
          world (syncTaskA env taskListA taskListB tasksBMap a s) = w' \<and>
          map_of (tasks (syncState (syncTaskA env taskListA taskListB tasksBMap a s))) =
            (map_of (tasks (syncState s)))(k \<mapsto> r\<lparr>lastSyncedUpdate := updated b\<rparr>))) \<and>
    (tasksAreEqual a b \<longrightarrow> world (syncTaskA env taskListA taskListB tasksBMap a s) = world s)"
proof -
  have ngt: "\<not> date_gt env (updated a) (updated b)"
    using assms(6) by (auto simp add: date_gt_def split: option.splits)
  have uA: "\<And>t w'. api_tasks_update env AccountA (list_id taskListA) (task_id a) (body_of b) (world s) =
        (Inr t, w') \<Longrightarrow>
      updateTask env AccountA (list_id taskListA) (task_id a) b s =
        (Inr t, (record_call (UpdateTask AccountA (task_id a) (body_of b)) s)\<lparr>world := w'\<rparr>)"
    using assms(7) by (simp add: updateTask_first)
  show ?thesis
    using assms ngt
    by (auto simp add: syncTaskA_def Let_def copyOnto_tasks_done map_of_map_entry_found
          copyOnto_world dest!: uA)
qed

theorem tie_prefers_B_witness:
  "issued (syncTaskA mem_env theList theList (taskMap [mk_task ''b1'' ''Buy bread'' ''200''])
      (mk_task ''a1'' ''Buy milk'' ''200'')
      (start (pairAB ''100'') (worldAB (mk_task ''a1'' ''Buy milk'' ''200'') (mk_task ''b1'' ''Buy bread'' ''200'')))) =
     [UpdateTask AccountA ''a1'' (body_of (mk_task ''b1'' ''Buy bread'' ''200''))] \<and>
   map_of (tasks (syncState (syncTaskA mem_env theList theList (taskMap [mk_task ''b1'' ''Buy bread'' ''200''])
      (mk_task ''a1'' ''Buy milk'' ''200'')
      (start (pairAB ''100'') (worldAB (mk_task ''a1'' ''Buy milk'' ''200'') (mk_task ''b1'' ''Buy bread'' ''200'')))))) ''a1-b1'' =
     Some \<lparr>accountAId = ''a1'', accountBId = ''b1'', lastSyncedUpdate = ''200''\<rparr> \<and>
   world (syncTaskA mem_env theList theList (taskMap [mk_task ''b1'' ''Buy bread'' ''200''])
      (mk_task ''a1'' ''Buy milk'' ''200'')
      (start (pairAB ''100'') (worldAB (mk_task ''a1'' ''Buy milk'' ''200'') (mk_task ''b1'' ''Buy bread'' ''200'')))) =
     \<lparr>storeA = [mk_task ''a1'' ''Buy bread'' ''1000''], storeB = [mk_task ''b1'' ''Buy bread'' ''200''],
      clock = 1001, stateFile = None\<rparr>"
proof -
  let ?a = "mk_task ''a1'' ''Buy milk'' ''200''"
  let ?b = "mk_task ''b1'' ''Buy bread'' ''200''"
  let ?r = "\<lparr>accountAId = ''a1'', accountBId = ''b1'', lastSyncedUpdate = ''100''\<rparr>"
  let ?s = "start (pairAB ''100'') (worldAB ?a ?b)"
  let ?w = "\<lparr>storeA = [mk_task ''a1'' ''Buy bread'' ''1000''], storeB = [?b],
      clock = 1001, stateFile = None\<rparr>"
  have 1: "distinct (map fst (tasks (syncState ?s)))" by code_simp
  have 2: "find (\<lambda>(k, r). accountAId r = task_id ?a) (tasks (syncState ?s)) = Some (''a1-b1'', ?r)"
    by code_simp
  have 3: "taskMap [?b] (accountBId ?r) = Some ?b" by code_simp
  have 4: "date_gt mem_env (updated ?a) (lastSyncedUpdate ?r)" by code_simp
  have 5: "date_gt mem_env (updated ?b) (lastSyncedUpdate ?r)" by code_simp
  have 6: "dateValue mem_env (updated ?a) = dateValue mem_env (updated ?b)" by code_simp
  have 7: "task_id ?a \<noteq> []" by code_simp
  have 8: "\<not> tasksAreEqual ?a ?b" by code_simp
  have 9: "api_tasks_update mem_env AccountA (list_id theList) (task_id ?a) (body_of ?b) (world ?s) =
      (Inr (mk_task ''a1'' ''Buy bread'' ''1000''), ?w)" by code_simp
  from tie_prefers_B[where s="?s" and a="?a" and b="?b" and k="''a1-b1''" and r="?r"
      and tasksBMap="taskMap [?b]" and env=mem_env and taskListA=theList and taskListB=theList,
      OF 1 2 3 4 5 6 7] 8 9
  show ?thesis
    by (simp add: start_def pairAB_def mk_task_def)
qed

text \<open>
  Claim C3. When at least one of two paired tasks was modified since the last sync and
  their title, notes, status and due are equal, the loop body makes no call and leaves
  the outside world as it is, and the record's \<open>lastSyncedUpdate\<close> becomes the \<open>updated\<close>
  of the winning side: \<open>a\<close> when only \<open>a\<close> was modified or both were and \<open>a\<close> is strictly
  later, else \<open>b\<close>. That timestamp is later than the old one and neither task is later
  than it.
\<close>

theorem noop_when_content_equal:
  assumes "distinct (map fst (tasks (syncState s)))"
    and "find (\<lambda>(k, r). accountAId r = task_id a) (tasks (syncState s)) = Some (k, r)"
    and "tasksBMap (accountBId r) = Some b"
    and "date_gt env (updated a) (lastSyncedUpdate r) \<or> date_gt env (updated b) (lastSyncedUpdate r)"
    and "tasksAreEqual a b"
  shows
   "issued (syncTaskA env taskListA taskListB tasksBMap a s) = issued s \<and>
    world (syncTaskA env taskListA taskListB tasksBMap a s) = world s \<and>
    (let winner =
           (if date_gt env (updated a) (lastSyncedUpdate r) \<and>
               (date_gt env (updated b) (lastSyncedUpdate r) \<longrightarrow> date_gt env (updated a) (updated b))
            then a else b)
     in map_of (tasks (syncState (syncTaskA env taskListA taskListB tasksBMap a s))) =
          (map_of (tasks (syncState s)))(k \<mapsto> r\<lparr>lastSyncedUpdate := updated winner\<rparr>) \<and>
        date_gt env (updated winner) (lastSyncedUpdate r) \<and>
        \<not> date_gt env (updated a) (updated winner) \<and>
        \<not> date_gt env (updated b) (updated winner))"
proof -
  have irr: "\<And>x. \<not> date_gt env x x"
    by (auto simp add: date_gt_def split: option.splits)
  have tr: "\<And>x y z. date_gt env x y \<Longrightarrow> \<not> date_gt env z y \<Longrightarrow> \<not> date_gt env z x"
    by (auto simp add: date_gt_def split: option.splits)
  have asym: "\<And>x y. date_gt env x y \<Longrightarrow> \<not> date_gt env y x"
    by (auto simp add: date_gt_def split: option.splits)
  show ?thesis
    using assms irr tr[of "updated a" "lastSyncedUpdate r" "updated b"]
      tr[of "updated b" "lastSyncedUpdate r" "updated a"]
      asym[of "updated a" "updated b"]
    by (auto simp add: syncTaskA_def Let_def copyOnto_tasks_done copyOnto_equal_world
          map_of_map_entry_found)
qed

theorem noop_when_content_equal_witness:
  "issued (syncTaskA mem_env theList theList (taskMap [mk_task ''b1'' ''Buy milk'' ''200''])
      (mk_task ''a1'' ''Buy milk'' ''300'')
      (start (pairAB ''100'') (worldAB (mk_task ''a1'' ''Buy milk'' ''300'') (mk_task ''b1'' ''Buy milk'' ''200'')))) = [] \<and>
   map_of (tasks (syncState (syncTaskA mem_env theList theList (taskMap [mk_task ''b1'' ''Buy milk'' ''200''])
      (mk_task ''a1'' ''Buy milk'' ''300'')
      (start (pairAB ''100'') (worldAB (mk_task ''a1'' ''Buy milk'' ''300'') (mk_task ''b1'' ''Buy milk'' ''200'')))))) ''a1-b1'' =
     Some \<lparr>accountAId = ''a1'', accountBId = ''b1'', lastSyncedUpdate = ''300''\<rparr>"
proof -
  let ?a = "mk_task ''a1'' ''Buy milk'' ''300''"
  let ?b = "mk_task ''b1'' ''Buy milk'' ''200''"
  let ?r = "\<lparr>accountAId = ''a1'', accountBId = ''b1'', lastSyncedUpdate = ''100''\<rparr>"
  let ?s = "start (pairAB ''100'') (worldAB ?a ?b)"
  have 1: "distinct (map fst (tasks (syncState ?s)))" by code_simp
  have 2: "find (\<lambda>(k, r). accountAId r = task_id ?a) (tasks (syncState ?s)) = Some (''a1-b1'', ?r)"
    by code_simp
  have 3: "taskMap [?b] (accountBId ?r) = Some ?b" by code_simp
  have 4: "date_gt mem_env (updated ?a) (lastSyncedUpdate ?r) \<or>
           date_gt mem_env (updated ?b) (lastSyncedUpdate ?r)" by code_simp
  have 5: "tasksAreEqual ?a ?b" by code_simp
  have 6: "date_gt mem_env (updated ?a) (lastSyncedUpdate ?r)"
     "date_gt mem_env (updated ?a) (updated ?b)" by code_simp+
  from noop_when_content_equal[where s="?s" and a="?a" and b="?b" and k="''a1-b1''" and r="?r"
      and tasksBMap="taskMap [?b]" and env=mem_env and taskListA=theList and taskListB=theList,
      OF 1 2 3 4 5] 6
  show ?thesis
    by (simp add: start_def pairAB_def mk_task_def Let_def)
qed

section \<open>Unpaired tasks\<close>

lemma syncTaskA_unpaired:
  "find (\<lambda>(k, r). accountAId r = task_id a) (tasks (syncState s)) = None \<Longrightarrow>
   issued (syncTaskA env taskListA taskListB tasksBMap a s) =
     issued s @ [CreateTask AccountB (body_of a)] \<and>
   world (syncTaskA env taskListA taskListB tasksBMap a s) =
     world (snd (createTask env AccountB (list_id taskListB) a s)) \<and>
   tasks (syncState (syncTaskA env taskListA taskListB tasksBMap a s)) =
     (case fst (createTask env AccountB (list_id taskListB) a s) of
        Inl e \<Rightarrow> tasks (syncState s)
      | Inr newTaskB \<Rightarrow>
          AList.update (task_id a @ ''-'' @ task_id newTaskB)
            \<lparr>accountAId = task_id a, accountBId = task_id newTaskB, lastSyncedUpdate = updated a\<rparr>
            (tasks (syncState s)))"
  by (simp add: syncTaskA_def Let_def case_prod_beta split: sum.splits)

lemma syncTaskB_unpaired:
  "find (\<lambda>(k, r). accountBId r = task_id b) (tasks (syncState s)) = None \<Longrightarrow>
   issued (syncTaskB env taskListA taskListB b s) =
     issued s @ [CreateTask AccountA (body_of b)] \<and>
   world (syncTaskB env taskListA taskListB b s) =
     world (snd (createTask env AccountA (list_id taskListA) b s)) \<and>
   tasks (syncState (syncTaskB env taskListA taskListB b s)) =
     (case fst (createTask env AccountA (list_id taskListA) b s) of
        Inl e \<Rightarrow> tasks (syncState s)
      | Inr newTaskA \<Rightarrow>
          AList.update (task_id newTaskA @ ''-'' @ task_id b)
            \<lparr>accountAId = task_id newTaskA, accountBId = task_id b, lastSyncedUpdate = updated b\<rparr>
            (tasks (syncState s)))"
  by (simp add: syncTaskB_def Let_def case_prod_beta split: sum.splits)



section \<open>What the second loop leaves alone\<close>

lemma syncTaskB_processedPairs [simp]:
  "processedPairs (syncTaskB env taskListA taskListB b s) = processedPairs s"
  by (simp add: syncTaskB_def Let_def case_prod_beta split: option.splits sum.splits)

lemma loopB_processedPairs [simp]:
  "processedPairs (fold (syncTaskB env taskListA taskListB) tasksB s) = processedPairs s"
  by (induction tasksB arbitrary: s) simp_all

section \<open>What a pass reports\<close>

text \<open>On the in-memory service the pass always runs to its end.\<close>

lemma mem_getTaskLists: "getTaskLists mem_env acct s = (Inr [theList], s)"
proof -
  have "api_tasklists_list mem_env acct (world s) = (Inr [theList], world s)"
    by (simp add: mem_env_def theList_def)
  from retryLoop_return[where operation="api_tasklists_list mem_env acct", OF _ this, of 0 MAX_RETRIES]
  show ?thesis by (simp add: getTaskLists_def retryWithBackoff_def)
qed

lemma mem_getAllTasks: "getAllTasks mem_env acct l s = Some (Inr (store acct (world s)), s)"
proof -
  have "api_tasks_list mem_env acct l None (world s) = (Inr (store acct (world s), None), world s)"
    by (simp add: mem_env_def)
  from retryLoop_return[where operation="api_tasks_list mem_env acct l None", OF _ this, of 0 MAX_RETRIES]
  show ?thesis
    by (simp add: getAllTasks_def getAllTasksLoop.simps retryWithBackoff_def)
qed

lemma mem_syncTaskLists:
  "syncTaskLists mem_env s0 =
     (let s7 = core_notice (''Found '' @ show_nat (length (storeA (world s0))) @
                 '' tasks in Account A, '' @ show_nat (length (storeB (world s0))) @
                 '' tasks in Account B'')
                (core_notice ''Syncing: Account A (My Tasks) <-> Account B (My Tasks)''
                  (core_info ''Starting sync...'' (s0\<lparr>log := log s0 @ [StartGroup ''Sync Group'']\<rparr>)));
          s8 = reconcile mem_env theList theList (storeA (world s0)) (storeB (world s0)) s7
      in Some (Inr (),
           s8\<lparr>syncState := (syncState s8)\<lparr>lastSyncTime := show_nat (clock (world s8))\<rparr>,
              world := (world s8)\<lparr>stateFile :=
                 Some ((syncState s8)\<lparr>lastSyncTime := show_nat (clock (world s8))\<rparr>)\<rparr>,
              log := log s8 @ [Notice ''Sync state saved'', Info ''Sync completed successfully!'',
                               EndGroup]\<rparr>))"
proof -
  have tl: "TASK_LIST_NAME mem_env = None" "nowISO mem_env = (\<lambda>w. show_nat (clock w))"
    "writeFile mem_env = (\<lambda>st w. (Inr (), w\<lparr>stateFile := Some st\<rparr>))"
    by (simp_all add: mem_env_def)
  show ?thesis
    by (simp add: syncTaskLists_def mem_getTaskLists mem_getAllTasks chooseTaskLists_def tl
          saveSyncState_def Let_def theList_def core_notice_def core_info_def)
qed


lemma mem_main:
  "main mem_env w =
     (let s0 = loadSyncState mem_env
                 \<lparr>syncState = \<lparr>tasks = [], lastSyncTime = epochISO\<rparr>, processedPairs = {},
                  world = w, slept = [], issued = [], log = []\<rparr>
      in case syncTaskLists mem_env s0 of Some (Inr u, s1) \<Rightarrow> Some (0, s1) | _ \<Rightarrow> None)"
  by (simp add: main_def mem_syncTaskLists Let_def)

text \<open>
  Claim C9, as stated, fails: the program keeps no count of operations and reports none.
  Two runs of \<^verbatim>\<open>main\<close> from the same ledger, where B's task differs from A's in its
  notes in the first run and equals it in the second, end with the same exit status and
  the same log, line by line; yet the first run applied one update and skipped nothing,
  the second applied nothing and skipped one.
\<close>

theorem no_counts_reported_counterexample:
  "report (main mem_env (fileWorld (withNotes ''2 l'' (mk_task ''a1'' ''Buy milk'' ''300''))
                                   (mk_task ''b1'' ''Buy milk'' ''200''))) =
   report (main mem_env (fileWorld (withNotes ''2 l'' (mk_task ''a1'' ''Buy milk'' ''300''))
                                   (withNotes ''2 l'' (mk_task ''b1'' ''Buy milk'' ''200'')))) \<and>
   map_option (\<lambda>(c, s). issued s)
     (main mem_env (fileWorld (withNotes ''2 l'' (mk_task ''a1'' ''Buy milk'' ''300''))
                              (mk_task ''b1'' ''Buy milk'' ''200''))) =
     Some [UpdateTask AccountB ''b1'' (body_of (withNotes ''2 l'' (mk_task ''a1'' ''Buy milk'' ''300'')))] \<and>
   map_option (\<lambda>(c, s). issued s)
     (main mem_env (fileWorld (withNotes ''2 l'' (mk_task ''a1'' ''Buy milk'' ''300''))
                              (withNotes ''2 l'' (mk_task ''b1'' ''Buy milk'' ''200'')))) = Some []"
proof -
  let ?a = "withNotes ''2 l'' (mk_task ''a1'' ''Buy milk'' ''300'')"
  let ?b = "mk_task ''b1'' ''Buy milk'' ''200''"
  let ?b' = "withNotes ''2 l'' (mk_task ''b1'' ''Buy milk'' ''200'')"
  let ?pre = "\<lambda>w. core_notice ''Found 1 tasks in Account A, 1 tasks in Account B''
                (core_notice ''Syncing: Account A (My Tasks) <-> Account B (My Tasks)''
                  (core_info ''Starting sync...''
                    ((core_notice ''Loaded existing sync state''
                       \<lparr>syncState = \<lparr>tasks = pairAB ''100'', lastSyncTime = epochISO\<rparr>,
                        processedPairs = {}, world = w, slept = [], issued = [], log = []\<rparr>)
                     \<lparr>log := [Notice ''Loaded existing sync state'', StartGroup ''Sync Group'']\<rparr>)))"
  have sn: "show_nat (Suc 0) = ''1''" by code_simp
  have rf: "readFile mem_env = stateFile" by (simp add: mem_env_def)
  have l1: "log (reconcile mem_env theList theList [?a] [?b] (?pre (fileWorld ?a ?b))) =
            log (reconcile mem_env theList theList [?a] [?b'] (?pre (fileWorld ?a ?b')))"
    by code_simp
  have i1: "issued (reconcile mem_env theList theList [?a] [?b] (?pre (fileWorld ?a ?b))) =
            [UpdateTask AccountB ''b1'' (body_of ?a)]"
    by code_simp
  have i2: "issued (reconcile mem_env theList theList [?a] [?b'] (?pre (fileWorld ?a ?b'))) = []"
    by code_simp
  have m1: "main mem_env (fileWorld ?a ?b) = Some (0,
     (let s8 = reconcile mem_env theList theList [?a] [?b] (?pre (fileWorld ?a ?b))
      in s8\<lparr>syncState := (syncState s8)\<lparr>lastSyncTime := show_nat (clock (world s8))\<rparr>,
              world := (world s8)\<lparr>stateFile :=
                 Some ((syncState s8)\<lparr>lastSyncTime := show_nat (clock (world s8))\<rparr>)\<rparr>,
              log := log s8 @ [Notice ''Sync state saved'', Info ''Sync completed successfully!'',
                               EndGroup]\<rparr>))"
    by (simp add: mem_main mem_syncTaskLists loadSyncState_def fileWorld_def rf Let_def sn
          core_notice_def core_info_def)
  have m2: "main mem_env (fileWorld ?a ?b') = Some (0,
     (let s8 = reconcile mem_env theList theList [?a] [?b'] (?pre (fileWorld ?a ?b'))
      in s8\<lparr>syncState := (syncState s8)\<lparr>lastSyncTime := show_nat (clock (world s8))\<rparr>,
              world := (world s8)\<lparr>stateFile :=
                 Some ((syncState s8)\<lparr>lastSyncTime := show_nat (clock (world s8))\<rparr>)\<rparr>,
              log := log s8 @ [Notice ''Sync state saved'', Info ''Sync completed successfully!'',
                               EndGroup]\<rparr>))"
    by (simp add: mem_main mem_syncTaskLists loadSyncState_def fileWorld_def rf Let_def sn
          core_notice_def core_info_def)
  show ?thesis
    unfolding m1 m2 report_def using l1 i1 i2 by (simp add: Let_def)
qed

lemma saveSyncState_log:
  "saveSyncState env s = (Inr u, s') \<Longrightarrow> log s' = log s @ [Notice ''Sync state saved'']"
  by (auto simp add: saveSyncState_def split: prod.splits sum.splits)

lemma syncTaskLists_returns:
  "syncTaskLists env s0 = Some (Inr u, s) \<Longrightarrow>
   last (log s) = Notice ''No task lists found in one or both accounts'' \<or>
   (\<exists>l. log s = l @ [Notice ''Sync state saved'', Info ''Sync completed successfully!'', EndGroup])"
  by (auto simp add: syncTaskLists_def Let_def dest!: saveSyncState_log
        split: prod.splits sum.splits option.splits if_splits)

text \<open>
  Claim C9, amended. A run of \<^verbatim>\<open>main\<close> that ends reports its outcome and no counts:
  with exit status 0 the log ends either with the notice that an account has no task
  list or with \<open>Sync state saved\<close>, \<open>Sync completed successfully!\<close> and the end of the
  group; with exit status 1 it ends with \<open>Sync failed:\<close> and the message of the error.
\<close>

theorem main_reports_outcome:
  "main env w = Some (c, s) \<Longrightarrow>
   (c = 0 \<and>
      (last (log s) = Notice ''No task lists found in one or both accounts'' \<or>
       (\<exists>l. log s = l @ [Notice ''Sync state saved'', Info ''Sync completed successfully!'',
                         EndGroup]))) \<or>
   (c = 1 \<and> (\<exists>e. last (log s) = Err (''Sync failed: '' @ show_message (message e))))"
  by (auto simp add: main_def Let_def dest!: syncTaskLists_returns
        split: prod.splits sum.splits option.splits)


theorem main_reports_outcome_witness:
  "\<exists>s l. main mem_env emptyWorld = Some (0, s) \<and>
     log s = l @ [Notice ''Sync state saved'', Info ''Sync completed successfully!'', EndGroup]"
proof -
  obtain s where m: "main mem_env emptyWorld = Some (0, s)" and e: "last (log s) = EndGroup"
    by (simp add: mem_main mem_syncTaskLists Let_def)
  from main_reports_outcome[OF m] e show ?thesis using m by auto
qed

section \<open>The uniqueness invariant\<close>

lemma retryLoop_known:
  fixes operation :: "'w \<Rightarrow> (error + 'a) \<times> 'w"
  assumes mono: "\<forall>w r w'. operation w = (r, w') \<longrightarrow> known w \<subseteq> known w'"
    and tick: "\<forall>ms w. known w \<subseteq> known (setTimeout env ms w)"
  shows "known (world s) \<subseteq> known (world (snd (retryLoop env operation name retries attempt s))) \<and>
     (\<forall>v. fst (retryLoop env operation name retries attempt s) = Inr v \<longrightarrow>
        (\<exists>w. known (world s) \<subseteq> known w \<and>
           operation w = (Inr v, world (snd (retryLoop env operation name retries attempt s)))))"
proof (induction "Suc retries - attempt" arbitrary: attempt s)
  case 0
  then show ?case by (simp add: retryLoop_over)
next
  case (Suc n)
  show ?case
  proof (cases rule: retryLoop_cases[where env=env and retries=retries and attempt=attempt and operation=operation and s=s])
    case over
    then show ?thesis by (simp add: retryLoop_over)
  next
    case (return v w)
    then show ?thesis using mono by (auto simp add: retryLoop_return)
  next
    case (again e w)
    from Suc(2) again(1) have n: "n = Suc retries - Suc attempt" by simp
    let ?s' = "retryState env name retries attempt e w s"
    have "known (world s) \<subseteq> known w" using mono again(2) by blast
    moreover have "known w \<subseteq> known (world ?s')" using tick by simp
    ultimately have k: "known (world s) \<subseteq> known (world ?s')" by blast
    from Suc(1)[OF n, of ?s'] k show ?thesis
      unfolding retryLoop_again[where operation=operation, OF again]
      by (meson subset_trans)
  next
    case (throw e w)
    then show ?thesis using mono by (auto simp add: retryLoop_throw)
  qed
qed

lemma createTask_known:
  assumes "issuesNewIds env known"
  shows "known (world s) \<subseteq> known (world (snd (createTask env acct l t s))) \<and>
     (\<forall>v. fst (createTask env acct l t s) = Inr v \<longrightarrow>
        task_id v \<notin> known (world s) \<and> task_id v \<in> known (world (snd (createTask env acct l t s))))"
proof -
  let ?op = "api_tasks_insert env acct l (body_of t)"
  let ?s = "record_call (CreateTask acct (body_of t)) s"
  let ?r = "retryLoop env ?op (''createTask: '' @ title t) MAX_RETRIES 0 ?s"
  have mono: "\<forall>w r w'. ?op w = (r, w') \<longrightarrow> known w \<subseteq> known w'"
    using assms unfolding issuesNewIds_def by meson
  have tick: "\<forall>ms w. known w \<subseteq> known (setTimeout env ms w)"
    using assms unfolding issuesNewIds_def by meson
  have new: "\<forall>w v w'. ?op w = (Inr v, w') \<longrightarrow> task_id v \<notin> known w \<and> task_id v \<in> known w'"
    using assms unfolding issuesNewIds_def by meson
  have R: "known (world ?s) \<subseteq> known (world (snd ?r)) \<and>
     (\<forall>v. fst ?r = Inr v \<longrightarrow> (\<exists>w. known (world ?s) \<subseteq> known w \<and> ?op w = (Inr v, world (snd ?r))))"
    by (rule retryLoop_known[OF mono tick])
  have e: "createTask env acct l t s = ?r" by (simp add: createTask_def retryWithBackoff_def)
  have w: "world ?s = world s" by simp
  show ?thesis unfolding e using R new unfolding w by blast
qed

lemma updateTask_known:
  assumes "issuesNewIds env known"
  shows "known (world s) \<subseteq> known (world (snd (updateTask env acct l i t s)))"
proof -
  let ?op = "api_tasks_update env acct l i (body_of t)"
  have mono: "\<forall>w r w'. ?op w = (r, w') \<longrightarrow> known w \<subseteq> known w'"
    using assms unfolding issuesNewIds_def by meson
  have tick: "\<forall>ms w. known w \<subseteq> known (setTimeout env ms w)"
    using assms unfolding issuesNewIds_def by meson
  from retryLoop_known[OF mono tick,
      where s="record_call (UpdateTask acct i (body_of t)) s" and name="''updateTask: '' @ title t"
      and retries=MAX_RETRIES and attempt=0]
  show ?thesis
    unfolding updateTask_def retryWithBackoff_def by auto
qed

lemma deleteTask_known:
  assumes "issuesNewIds env known"
  shows "known (world s) \<subseteq> known (world (snd (deleteTask env acct l i s)))"
proof -
  let ?op = "api_tasks_delete env acct l i"
  have mono: "\<forall>w r w'. ?op w = (r, w') \<longrightarrow> known w \<subseteq> known w'"
    using assms unfolding issuesNewIds_def by meson
  have tick: "\<forall>ms w. known w \<subseteq> known (setTimeout env ms w)"
    using assms unfolding issuesNewIds_def by meson
  from retryLoop_known[OF mono tick,
      where s="record_call (DeleteTask acct i) s" and name="''deleteTask: '' @ i"
      and retries=MAX_RETRIES and attempt=0]
  show ?thesis
    unfolding deleteTask_def retryWithBackoff_def by auto
qed

lemma pairsUnique_delete: "pairsUnique al \<Longrightarrow> pairsUnique (AList.delete k al)"
  by (simp add: pairsUnique_def AList.delete_eq distinct_map_filter)

lemma map_ids_map_entry:
  "map (\<lambda>(k, r). accountAId r) (AList.map_entry k (\<lambda>r. r\<lparr>lastSyncedUpdate := x\<rparr>) al) =
     map (\<lambda>(k, r). accountAId r) al"
  "map (\<lambda>(k, r). accountBId r) (AList.map_entry k (\<lambda>r. r\<lparr>lastSyncedUpdate := x\<rparr>) al) =
     map (\<lambda>(k, r). accountBId r) al"
  by (induction al) auto

lemma pairsUnique_map_entry:
  "pairsUnique (AList.map_entry k (\<lambda>r. r\<lparr>lastSyncedUpdate := x\<rparr>) al) = pairsUnique al"
  by (simp add: pairsUnique_def map_ids_map_entry)

lemma set_update_subset: "set (AList.update k v al) \<subseteq> insert (k, v) (set al)"
  by (induction al) auto

lemma distinct_map_update:
  "distinct (map f al) \<Longrightarrow> f (k, v) \<notin> f ` set al \<Longrightarrow> distinct (map f (AList.update k v al))"
proof (induction al)
  case Nil
  then show ?case by simp
next
  case (Cons p ps)
  show ?case
  proof (cases "fst p = k")
    case True
    with Cons.prems show ?thesis by auto
  next
    case False
    have "f p \<notin> f ` set (AList.update k v ps)"
    proof
      assume "f p \<in> f ` set (AList.update k v ps)"
      then obtain q where q: "q \<in> set (AList.update k v ps)" "f p = f q" by auto
      with set_update_subset[of k v ps] have "q = (k, v) \<or> q \<in> set ps" by auto
      with q(2) Cons.prems show False by auto
    qed
    with False Cons show ?thesis by auto
  qed
qed

lemma pairsUnique_update:
  "pairsUnique al \<Longrightarrow> accountAId v \<notin> (\<lambda>(k, r). accountAId r) ` set al \<Longrightarrow>
   accountBId v \<notin> (\<lambda>(k, r). accountBId r) ` set al \<Longrightarrow> pairsUnique (AList.update k v al)"
  unfolding pairsUnique_def
  using distinct_map_update[of "\<lambda>(k, r). accountAId r" al k v]
    distinct_map_update[of "\<lambda>(k, r). accountBId r" al k v]
  by simp

lemma idsKnown_delete: "idsKnown K al \<Longrightarrow> idsKnown K (AList.delete k al)"
  by (auto simp add: idsKnown_def AList.delete_eq)

lemma idsKnown_map_entry:
  "idsKnown K al \<Longrightarrow> idsKnown K (AList.map_entry k (\<lambda>r. r\<lparr>lastSyncedUpdate := x\<rparr>) al)"
  unfolding idsKnown_def by (induction al) auto

lemma idsKnown_update:
  "idsKnown K al \<Longrightarrow> accountAId v \<in> K \<Longrightarrow> accountBId v \<in> K \<Longrightarrow> idsKnown K (AList.update k v al)"
  unfolding idsKnown_def by (induction al) auto

lemma idsKnown_mono: "idsKnown K al \<Longrightarrow> K \<subseteq> K' \<Longrightarrow> idsKnown K' al"
  by (auto simp add: idsKnown_def)

lemma ledgerOk_shrink:
  assumes "ledgerOk known s" and "known (world s) \<subseteq> known (world s')"
    and "tasks (syncState s') = tasks (syncState s) \<or>
         tasks (syncState s') = AList.delete k (tasks (syncState s)) \<or>
         tasks (syncState s') = AList.map_entry k' (\<lambda>r. r\<lparr>lastSyncedUpdate := x\<rparr>) (tasks (syncState s))"
  shows "ledgerOk known s'"
  using assms unfolding ledgerOk_def
  by (auto simp add: pairsUnique_map_entry pairsUnique_delete
        intro!: idsKnown_delete idsKnown_map_entry intro: idsKnown_mono)

lemma copyOnto_known:
  assumes "issuesNewIds env known"
  shows "known (world s) \<subseteq> known (world (copyOnto env dst l i src equal say k r s))"
  using updateTask_known[OF assms, of s dst l i src]
  by (simp add: copyOnto_def updateFailed_def Let_def case_prod_beta split: sum.splits)

lemma copyOnto_tasks_cases:
  "tasks (syncState (copyOnto env dst l i src equal say k r s)) = tasks (syncState s) \<or>
   tasks (syncState (copyOnto env dst l i src equal say k r s)) =
     AList.delete (pairKey r) (tasks (syncState s)) \<or>
   tasks (syncState (copyOnto env dst l i src equal say k r s)) =
     AList.map_entry k (\<lambda>r. r\<lparr>lastSyncedUpdate := updated src\<rparr>) (tasks (syncState s))"
  by (simp add: copyOnto_def updateFailed_def Let_def case_prod_beta split: sum.splits)

lemma copyOnto_known':
  "issuesNewIds env known \<Longrightarrow> known (world s) = K \<Longrightarrow>
   K \<subseteq> known (world (copyOnto env dst l i src equal say k r s))"
  using copyOnto_known by blast

lemma copyOnto_ledgerOk:
  assumes "issuesNewIds env known" and "ledgerOk known s"
  shows "ledgerOk known (copyOnto env dst l i src equal say k r s)"
  using ledgerOk_shrink[OF assms(2) copyOnto_known[OF assms(1)] copyOnto_tasks_cases] .

lemma ledgerOk_core_info [simp]: "ledgerOk known (core_info m s) = ledgerOk known s"
  by (simp add: ledgerOk_def)

lemma ledgerOk_core_error [simp]: "ledgerOk known (core_error m s) = ledgerOk known s"
  by (simp add: ledgerOk_def)

lemma ledgerOk_processedPairs [simp]:
  "ledgerOk known (s\<lparr>processedPairs := P\<rparr>) = ledgerOk known s"
  by (simp add: ledgerOk_def)

lemma find_None_ids:
  "find (\<lambda>(k, r). accountAId r = x) al = None \<Longrightarrow> x \<notin> (\<lambda>(k, r). accountAId r) ` set al"
  "find (\<lambda>(k, r). accountBId r = y) al = None \<Longrightarrow> y \<notin> (\<lambda>(k, r). accountBId r) ` set al"
  by (auto simp add: find_None_iff)

lemma syncTaskA_ledgerOk:
  assumes new: "issuesNewIds env known" and ok: "ledgerOk known s"
    and a: "task_id a \<in> known (world s)"
  shows "ledgerOk known (syncTaskA env taskListA taskListB tasksBMap a s) \<and>
         known (world s) \<subseteq> known (world (syncTaskA env taskListA taskListB tasksBMap a s))"
proof (cases "find (\<lambda>(k, r). accountAId r = task_id a) (tasks (syncState s))")
  case None
  let ?s1 = "core_info (''New task in A, creating in B: '' @ title a) s"
  let ?c = "createTask env AccountB (list_id taskListB) a ?s1"
  from createTask_known[OF new, of ?s1 AccountB "list_id taskListB" a]
  have k: "known (world s) \<subseteq> known (world (snd ?c))"
    and v: "\<And>v. fst ?c = Inr v \<Longrightarrow> task_id v \<notin> known (world s) \<and> task_id v \<in> known (world (snd ?c))"
    by simp_all
  show ?thesis
  proof (cases "fst ?c")
    case (Inl e)
    with None have "syncTaskA env taskListA taskListB tasksBMap a s = core_error (failureMessage ''create task in B'' e) (snd ?c)"
      by (simp add: syncTaskA_def Let_def case_prod_beta)
    moreover have "ledgerOk known (snd ?c)"
      using ledgerOk_shrink[OF ok k] by simp
    ultimately show ?thesis using k by simp
  next
    case (Inr v)
    let ?new = "\<lparr>accountAId = task_id a, accountBId = task_id v, lastSyncedUpdate = updated a\<rparr>"
    from None Inr have t: "tasks (syncState (syncTaskA env taskListA taskListB tasksBMap a s)) =
        AList.update (task_id a @ ''-'' @ task_id v) ?new (tasks (syncState s))"
      and w: "world (syncTaskA env taskListA taskListB tasksBMap a s) = world (snd ?c)"
      by (simp_all add: syncTaskA_def Let_def case_prod_beta)
    from ok have u: "pairsUnique (tasks (syncState s))"
      and ik: "idsKnown (known (world s)) (tasks (syncState s))" by (simp_all add: ledgerOk_def)
    from v[OF Inr] ik have nb: "task_id v \<notin> (\<lambda>(k, r). accountBId r) ` set (tasks (syncState s))"
      by (auto simp add: idsKnown_def)
    have "pairsUnique (AList.update (task_id a @ ''-'' @ task_id v) ?new (tasks (syncState s)))"
      using pairsUnique_update[OF u, of ?new] find_None_ids(1)[OF None] nb by simp
    moreover have "idsKnown (known (world (snd ?c))) (AList.update (task_id a @ ''-'' @ task_id v) ?new (tasks (syncState s)))"
      using idsKnown_update[OF idsKnown_mono[OF ik k], of ?new] a k v[OF Inr] by auto
    ultimately show ?thesis using k by (simp add: ledgerOk_def t w)
  qed
next
  case (Some kr)
  obtain k r where kr: "kr = (k, r)" by (cases kr)
  show ?thesis
  proof (cases "tasksBMap (accountBId r)")
    case None
    let ?s1 = "core_info (''Deleting from A (deleted in B): '' @ title a) s"
    let ?d = "deleteTask env AccountA (list_id taskListA) (task_id a) ?s1"
    from deleteTask_known[OF new, of ?s1 AccountA "list_id taskListA" "task_id a"]
    have k: "known (world s) \<subseteq> known (world (snd ?d))" by simp
    from Some kr None have t: "tasks (syncState (syncTaskA env taskListA taskListB tasksBMap a s)) =
        AList.delete (pairKey r) (tasks (syncState s))"
      and w: "world (syncTaskA env taskListA taskListB tasksBMap a s) = world (snd ?d)"
      by (simp_all add: syncTaskA_def Let_def case_prod_beta split: sum.splits)
    from k w have k': "known (world s) \<subseteq> known (world (syncTaskA env taskListA taskListB tasksBMap a s))"
      by simp
    from ledgerOk_shrink[OF ok k'] t k' show ?thesis by blast
  next
    case (Some b)
    with \<open>find _ _ = Some kr\<close> kr ok show ?thesis
      by (simp add: syncTaskA_def Let_def copyOnto_ledgerOk[OF new] copyOnto_known'[OF new])
  qed
qed

lemma syncTaskB_ledgerOk:
  assumes new: "issuesNewIds env known" and ok: "ledgerOk known s"
    and b: "task_id b \<in> known (world s)"
  shows "ledgerOk known (syncTaskB env taskListA taskListB b s) \<and>
         known (world s) \<subseteq> known (world (syncTaskB env taskListA taskListB b s))"
proof (cases "find (\<lambda>(k, r). accountBId r = task_id b) (tasks (syncState s))")
  case None
  let ?s1 = "core_info (''New task in B, creating in A: '' @ title b) s"
  let ?c = "createTask env AccountA (list_id taskListA) b ?s1"
  from createTask_known[OF new, of ?s1 AccountA "list_id taskListA" b]
  have k: "known (world s) \<subseteq> known (world (snd ?c))"
    and v: "\<And>v. fst ?c = Inr v \<Longrightarrow> task_id v \<notin> known (world s) \<and> task_id v \<in> known (world (snd ?c))"
    by simp_all
  show ?thesis
  proof (cases "fst ?c")
    case (Inl e)
    with None have "syncTaskB env taskListA taskListB b s = core_error (failureMessage ''create task in A'' e) (snd ?c)"
      by (simp add: syncTaskB_def Let_def case_prod_beta)
    moreover have "ledgerOk known (snd ?c)"
      using ledgerOk_shrink[OF ok k] by simp
    ultimately show ?thesis using k by simp
  next
    case (Inr v)
    let ?new = "\<lparr>accountAId = task_id v, accountBId = task_id b, lastSyncedUpdate = updated b\<rparr>"
    from None Inr have t: "tasks (syncState (syncTaskB env taskListA taskListB b s)) =
        AList.update (task_id v @ ''-'' @ task_id b) ?new (tasks (syncState s))"
      and w: "world (syncTaskB env taskListA taskListB b s) = world (snd ?c)"
      by (simp_all add: syncTaskB_def Let_def case_prod_beta)
    from ok have u: "pairsUnique (tasks (syncState s))"
      and ik: "idsKnown (known (world s)) (tasks (syncState s))" by (simp_all add: ledgerOk_def)
    from v[OF Inr] ik have na: "task_id v \<notin> (\<lambda>(k, r). accountAId r) ` set (tasks (syncState s))"
      by (auto simp add: idsKnown_def)
    have "pairsUnique (AList.update (task_id v @ ''-'' @ task_id b) ?new (tasks (syncState s)))"
      using pairsUnique_update[OF u, of ?new] find_None_ids(2)[OF None] na by simp
    moreover have "idsKnown (known (world (snd ?c))) (AList.update (task_id v @ ''-'' @ task_id b) ?new (tasks (syncState s)))"
      using idsKnown_update[OF idsKnown_mono[OF ik k], of ?new] b k v[OF Inr] by auto
    ultimately show ?thesis using k by (simp add: ledgerOk_def t w)
  qed
next
  case (Some kr)
  obtain k r where kr: "kr = (k, r)" by (cases kr)
  show ?thesis
  proof (cases "pairKey r \<in> processedPairs s")
    case True
    with Some kr ok show ?thesis by (simp add: syncTaskB_def)
  next
    case False
    let ?s1 = "core_info (''Deleting from B (deleted in A): '' @ title b) s"
    let ?d = "deleteTask env AccountB (list_id taskListB) (task_id b) ?s1"
    from deleteTask_known[OF new, of ?s1 AccountB "list_id taskListB" "task_id b"]
    have k: "known (world s) \<subseteq> known (world (snd ?d))" by simp
    from Some kr False have t: "tasks (syncState (syncTaskB env taskListA taskListB b s)) =
        AList.delete (pairKey r) (tasks (syncState s))"
      and w: "world (syncTaskB env taskListA taskListB b s) = world (snd ?d)"
      by (simp_all add: syncTaskB_def Let_def case_prod_beta split: sum.splits)
    from k w have k': "known (world s) \<subseteq> known (world (syncTaskB env taskListA taskListB b s))"
      by simp
    from ledgerOk_shrink[OF ok k'] t k' show ?thesis by blast
  qed
qed

lemma loopA_ledgerOk:
  assumes new: "issuesNewIds env known"
  shows "ledgerOk known s \<Longrightarrow> \<forall>t\<in>set tasksA. task_id t \<in> known (world s) \<Longrightarrow>
     ledgerOk known (fold (syncTaskA env taskListA taskListB tasksBMap) tasksA s) \<and>
     known (world s) \<subseteq> known (world (fold (syncTaskA env taskListA taskListB tasksBMap) tasksA s))"
proof (induction tasksA arbitrary: s)
  case Nil
  then show ?case by simp
next
  case (Cons a tasksA)
  let ?s' = "syncTaskA env taskListA taskListB tasksBMap a s"
  from syncTaskA_ledgerOk[OF new Cons.prems(1), of a taskListA taskListB tasksBMap] Cons.prems(2)
  have ok: "ledgerOk known ?s'" and k: "known (world s) \<subseteq> known (world ?s')" by simp_all
  from Cons.prems(2) k have "\<forall>t\<in>set tasksA. task_id t \<in> known (world ?s')" by auto
  from Cons.IH[OF ok this] k show ?case by auto
qed

lemma loopB_ledgerOk:
  assumes new: "issuesNewIds env known"
  shows "ledgerOk known s \<Longrightarrow> \<forall>t\<in>set tasksB. task_id t \<in> known (world s) \<Longrightarrow>
     ledgerOk known (fold (syncTaskB env taskListA taskListB) tasksB s) \<and>
     known (world s) \<subseteq> known (world (fold (syncTaskB env taskListA taskListB) tasksB s))"
proof (induction tasksB arbitrary: s)
  case Nil
  then show ?case by simp
next
  case (Cons b tasksB)
  let ?s' = "syncTaskB env taskListA taskListB b s"
  from syncTaskB_ledgerOk[OF new Cons.prems(1), of b taskListA taskListB] Cons.prems(2)
  have ok: "ledgerOk known ?s'" and k: "known (world s) \<subseteq> known (world ?s')" by simp_all
  from Cons.prems(2) k have "\<forall>t\<in>set tasksB. task_id t \<in> known (world ?s')" by auto
  from Cons.IH[OF ok this] k show ?case by auto
qed

text \<open>
  Claim C7. Let the remote service issue new ids, and let it know the ids of the ledger
  and of both snapshots. If no id of A and no id of B occurs in two pair records before
  the reconcile pass, none does after it, whatever the snapshots are and whichever calls
  fail.
\<close>

theorem reconcile_keeps_pairs_unique:
  assumes "issuesNewIds env known"
    and "pairsUnique (tasks (syncState s))"
    and "\<forall>(k, r) \<in> set (tasks (syncState s)).
           accountAId r \<in> known (world s) \<and> accountBId r \<in> known (world s)"
    and "\<forall>t \<in> set tasksA \<union> set tasksB. task_id t \<in> known (world s)"
  shows "pairsUnique (tasks (syncState (reconcile env taskListA taskListB tasksA tasksB s)))"
proof -
  let ?s0 = "s\<lparr>processedPairs := {}\<rparr>"
  let ?sA = "fold (syncTaskA env taskListA taskListB (taskMap tasksB)) tasksA ?s0"
  have ok0: "ledgerOk known ?s0" using assms(2,3) by (simp add: ledgerOk_def idsKnown_def)
  have a: "\<forall>t\<in>set tasksA. task_id t \<in> known (world ?s0)" using assms(4) by simp
  from loopA_ledgerOk[OF assms(1) ok0 a]
  have okA: "ledgerOk known ?sA" and k: "known (world ?s0) \<subseteq> known (world ?sA)" by simp_all
  from assms(4) k have b: "\<forall>t\<in>set tasksB. task_id t \<in> known (world ?sA)" by auto
  from loopB_ledgerOk[OF assms(1) okA b]
  show ?thesis by (simp add: reconcile_def ledgerOk_def)
qed

lemma read_digits_append:
  "read_digits acc (xs @ ys) =
     (case read_digits acc xs of None \<Rightarrow> None | Some v \<Rightarrow> read_digits v ys)"
  by (induction xs arbitrary: acc) auto

lemma of_char_digit: "d < 10 \<Longrightarrow> (of_char (digit d) :: nat) = 48 + d"
  by (simp add: digit_def)

lemma read_show_nat: "read_digits 0 (show_nat n) = Some n"
proof (induction n rule: show_nat.induct)
  case (1 n)
  show ?case
  proof (cases "n < 10")
    case True
    then show ?thesis by (subst show_nat.simps) (simp add: of_char_digit)
  next
    case False
    have "n mod 10 < 10" by simp
    then have d: "(of_char (digit (n mod 10)) :: nat) = 48 + n mod 10" by (rule of_char_digit)
    from False 1 have "read_digits 0 (show_nat (n div 10)) = Some (n div 10)" by simp
    then show ?thesis using False
      by (subst show_nat.simps) (simp add: read_digits_append d)
  qed
qed

lemma show_nat_inj: "show_nat m = show_nat n \<Longrightarrow> m = n"
  using read_show_nat[of m] read_show_nat[of n] by (metis option.inject)

lemma new_id_inj [simp]: "new_id m = new_id n \<longleftrightarrow> m = n"
  unfolding new_id_def using show_nat_inj by blast

lemma oldIds_mono: "clock w \<le> clock w' \<Longrightarrow> oldIds w \<subseteq> oldIds w'"
  unfolding oldIds_def using le_trans by blast

lemma clock_set_store [simp]: "clock (set_store acct ts w) = clock w"
  by (cases acct) simp_all

lemma mem_issuesNewIds: "issuesNewIds mem_env oldIds"
  unfolding issuesNewIds_def
proof (intro conjI allI impI)
  fix acct l body w t w'
  assume "api_tasks_insert mem_env acct l body w = (Inr t, w')"
  then have "task_id t = new_id (clock w)" "clock w' = Suc (clock w)"
    by (auto simp add: mem_env_def mem_insert_def Let_def)
  then show "task_id t \<notin> oldIds w" and "task_id t \<in> oldIds w'"
    by (auto simp add: oldIds_def)
next
  fix acct l body w and r :: "error + task" and w'
  assume "api_tasks_insert mem_env acct l body w = (r, w')"
  then have "clock w \<le> clock w'"
    by (auto simp add: mem_env_def mem_insert_def Let_def)
  then show "oldIds w \<subseteq> oldIds w'" by (rule oldIds_mono)
next
  fix acct l i body w and r :: "error + task" and w'
  assume "api_tasks_update mem_env acct l i body w = (r, w')"
  then have "clock w \<le> clock w'"
    by (auto simp add: mem_env_def mem_update_def Let_def split: option.splits)
  then show "oldIds w \<subseteq> oldIds w'" by (rule oldIds_mono)
next
  fix acct l i w and r :: "error + unit" and w'
  assume "api_tasks_delete mem_env acct l i w = (r, w')"
  then have "clock w \<le> clock w'"
    by (auto simp add: mem_env_def mem_delete_def Let_def split: option.splits)
  then show "oldIds w \<subseteq> oldIds w'" by (rule oldIds_mono)
next
  fix ms w
  show "oldIds w \<subseteq> oldIds (setTimeout mem_env ms w)"
    by (rule oldIds_mono) (simp add: mem_env_def)
qed

lemma not_new_id: "x \<noteq> [] \<Longrightarrow> hd x \<noteq> CHR ''t'' \<Longrightarrow> x \<in> oldIds w"
  by (auto simp add: oldIds_def new_id_def)

theorem reconcile_keeps_pairs_unique_witness:
  "pairsUnique (tasks (syncState (reconcile mem_env theList theList
      [mk_task ''a1'' ''Buy milk'' ''300'', mk_task ''a2'' ''Call Bob'' ''250'']
      [mk_task ''b1'' ''Buy bread'' ''200'']
      (start (pairAB ''100'')
         (worldOf [mk_task ''a1'' ''Buy milk'' ''300'', mk_task ''a2'' ''Call Bob'' ''250'']
                  [mk_task ''b1'' ''Buy bread'' ''200''])))))"
proof -
  let ?A = "[mk_task ''a1'' ''Buy milk'' ''300'', mk_task ''a2'' ''Call Bob'' ''250'']"
  let ?B = "[mk_task ''b1'' ''Buy bread'' ''200'']"
  let ?s = "start (pairAB ''100'') (worldOf ?A ?B)"
  have 1: "pairsUnique (tasks (syncState ?s))" by code_simp
  have 2: "\<forall>(k, r) \<in> set (tasks (syncState ?s)).
           accountAId r \<in> oldIds (world ?s) \<and> accountBId r \<in> oldIds (world ?s)"
    by (simp add: start_def pairAB_def not_new_id)
  have 3: "\<forall>t \<in> set ?A \<union> set ?B. task_id t \<in> oldIds (world ?s)"
    by (simp add: mk_task_def not_new_id)
  from reconcile_keeps_pairs_unique[OF mem_issuesNewIds 1 2 3] show ?thesis .
qed

section \<open>Pairs that lost one side\<close>


lemma set_map_entry_ids:
  "(k2, r2) \<in> set (AList.map_entry k (\<lambda>r. r\<lparr>lastSyncedUpdate := x\<rparr>) al) \<Longrightarrow>
   \<exists>r0. (k2, r0) \<in> set al \<and> accountAId r0 = accountAId r2 \<and> accountBId r0 = accountBId r2"
  by (induction al) (auto split: if_splits)




lemma update_in_cases:
  "(k, r) \<in> set (AList.update k' v al) \<Longrightarrow> (k, r) = (k', v) \<or> (k, r) \<in> set al"
  using set_update_subset[of k' v al] by blast








lemma syncTaskA_paired_tasks:
  assumes "find (\<lambda>(k, r). accountAId r = task_id a) (tasks (syncState s)) = Some (k, r)"
    and "tasksBMap (accountBId r) = Some b"
  shows "\<exists>x. tasks (syncState (syncTaskA env taskListA taskListB tasksBMap a s)) = tasks (syncState s) \<or>
       tasks (syncState (syncTaskA env taskListA taskListB tasksBMap a s)) =
         AList.delete (pairKey r) (tasks (syncState s)) \<or>
       tasks (syncState (syncTaskA env taskListA taskListB tasksBMap a s)) =
         AList.map_entry k (\<lambda>r. r\<lparr>lastSyncedUpdate := x\<rparr>) (tasks (syncState s))"
proof -
  define Q where "Q T \<longleftrightarrow> (\<exists>x. T = tasks (syncState s) \<or>
       T = AList.delete (pairKey r) (tasks (syncState s)) \<or>
       T = AList.map_entry k (\<lambda>r. r\<lparr>lastSyncedUpdate := x\<rparr>) (tasks (syncState s)))" for T
  have c: "\<And>dst l i src equal say s0. tasks (syncState s0) = tasks (syncState s) \<Longrightarrow>
      Q (tasks (syncState (copyOnto env dst l i src equal say k r s0)))"
  proof -
    fix dst l i src equal say and s0 :: "'a run"
    assume "tasks (syncState s0) = tasks (syncState s)"
    with copyOnto_tasks_cases[of env dst l i src equal say k r s0]
    show "Q (tasks (syncState (copyOnto env dst l i src equal say k r s0)))"
      unfolding Q_def by metis
  qed
  have n: "Q (tasks (syncState s))" unfolding Q_def by blast
  have "Q (tasks (syncState (syncTaskA env taskListA taskListB tasksBMap a s)))"
    using assms by (simp add: syncTaskA_def Let_def c n)
  then show ?thesis unfolding Q_def .
qed



text \<open>A record that the second loop leaves in the ledger and that names no task the loop
  has met was there before.\<close>

lemma syncTaskB_old:
  "(k, r) \<in> set (tasks (syncState (syncTaskB env taskListA taskListB b s))) \<Longrightarrow>
   accountBId r \<noteq> task_id b \<Longrightarrow> (k, r) \<in> set (tasks (syncState s))"
  by (auto simp add: syncTaskB_def Let_def case_prod_beta AList.delete_eq
        split: option.splits sum.splits if_splits dest!: update_in_cases)

lemma loopB_old:
  "(k, r) \<in> set (tasks (syncState (fold (syncTaskB env taskListA taskListB) tasksB s))) \<Longrightarrow>
   accountBId r \<notin> task_id ` set tasksB \<Longrightarrow> (k, r) \<in> set (tasks (syncState s))"
proof (induction tasksB arbitrary: s)
  case Nil
  then show ?case by simp
next
  case (Cons b tasksB)
  from Cons.prems have "(k, r) \<in> set (tasks (syncState (syncTaskB env taskListA taskListB b s)))"
    using Cons.IH[of "syncTaskB env taskListA taskListB b s"] by simp
  from syncTaskB_old[OF this] Cons.prems(2) show ?case by simp
qed


lemma world_deletePair_A:
  "find (\<lambda>(k, r). accountAId r = task_id a) (tasks (syncState s)) = Some (k, r) \<Longrightarrow>
   tasksBMap (accountBId r) = None \<Longrightarrow>
   world (syncTaskA env taskListA taskListB tasksBMap a s) =
     world (snd (deleteTask env AccountA (list_id taskListA) (task_id a) s))"
  by (simp add: syncTaskA_def Let_def case_prod_beta split: sum.splits)






section \<open>A pair evicted in the first loop\<close>

lemma find_delete_None:
  assumes "\<forall>(k', r') \<in> set al. P r' \<longrightarrow> k' = k"
  shows "find (\<lambda>(k, r). P r) (AList.delete k al) = None"
  using assms by (auto simp add: find_None_iff AList.delete_eq)

lemma syncTaskA_known:
  assumes new: "issuesNewIds env known"
  shows "known (world s) \<subseteq> known (world (syncTaskA env taskListA taskListB tasksBMap a s))"
proof (cases "find (\<lambda>(k, r). accountAId r = task_id a) (tasks (syncState s))")
  case None
  from syncTaskA_unpaired[OF None, of env taskListA taskListB tasksBMap]
    createTask_known[OF new, of s AccountB "list_id taskListB" a]
  show ?thesis by simp
next
  case (Some kr)
  obtain k r where kr: "kr = (k, r)" by (cases kr)
  from Some kr
  have fnd: "find (\<lambda>(k, r). accountAId r = task_id a) (tasks (syncState s)) = Some (k, r)" by simp
  show ?thesis
  proof (cases "tasksBMap (accountBId r)")
    case None
    from world_deletePair_A[where a=a and s=s and k=k and r=r and tasksBMap=tasksBMap and env=env
        and taskListA=taskListA and taskListB=taskListB, OF fnd None]
      deleteTask_known[OF new, of s AccountA "list_id taskListA" "task_id a"]
    show ?thesis by simp
  next
    case (Some b)
    with fnd show ?thesis
      by (simp add: syncTaskA_def Let_def copyOnto_known'[OF new])
  qed
qed

text \<open>No record names the B-side id \<open>x\<close>: the first loop keeps it so when the service will
  not issue \<open>x\<close> again, the second loop when it does not meet a task with that id.\<close>

lemma syncTaskA_noB:
  assumes new: "issuesNewIds env known" and x: "x \<in> known (world s)"
    and no: "\<forall>(k, r) \<in> set (tasks (syncState s)). accountBId r \<noteq> x"
  shows "\<forall>(k, r) \<in> set (tasks (syncState (syncTaskA env taskListA taskListB tasksBMap a s))).
           accountBId r \<noteq> x"
proof (cases "find (\<lambda>(k, r). accountAId r = task_id a) (tasks (syncState s))")
  case None
  note u = syncTaskA_unpaired[OF None, of env taskListA taskListB tasksBMap]
  show ?thesis
  proof (cases "fst (createTask env AccountB (list_id taskListB) a s)")
    case (Inl e)
    with u no show ?thesis by simp
  next
    case (Inr v)
    from createTask_known[OF new, of s AccountB "list_id taskListB" a] Inr x
    have "task_id v \<noteq> x" by auto
    with u Inr no show ?thesis by (auto dest!: update_in_cases)
  qed
next
  case (Some kr)
  obtain k r where kr: "kr = (k, r)" by (cases kr)
  from Some kr
  have fnd: "find (\<lambda>(k, r). accountAId r = task_id a) (tasks (syncState s)) = Some (k, r)" by simp
  show ?thesis
  proof (cases "tasksBMap (accountBId r)")
    case None
    with fnd have "tasks (syncState (syncTaskA env taskListA taskListB tasksBMap a s)) =
        AList.delete (pairKey r) (tasks (syncState s))"
      by (simp add: syncTaskA_def Let_def case_prod_beta split: sum.splits)
    with no show ?thesis by (auto simp add: AList.delete_eq)
  next
    case (Some b)
    from syncTaskA_paired_tasks[where tasksBMap=tasksBMap and a=a and s=s and k=k and r=r and b=b
        and env=env and taskListA=taskListA and taskListB=taskListB, OF fnd Some]
    obtain y where "tasks (syncState (syncTaskA env taskListA taskListB tasksBMap a s)) = tasks (syncState s) \<or>
       tasks (syncState (syncTaskA env taskListA taskListB tasksBMap a s)) =
         AList.delete (pairKey r) (tasks (syncState s)) \<or>
       tasks (syncState (syncTaskA env taskListA taskListB tasksBMap a s)) =
         AList.map_entry k (\<lambda>r. r\<lparr>lastSyncedUpdate := y\<rparr>) (tasks (syncState s))" by blast
    with no show ?thesis
      by (auto simp add: AList.delete_eq dest!: set_map_entry_ids)
  qed
qed

lemma loopA_noB:
  assumes new: "issuesNewIds env known"
  shows "x \<in> known (world s) \<Longrightarrow>
     \<forall>(k, r) \<in> set (tasks (syncState s)). accountBId r \<noteq> x \<Longrightarrow>
     \<forall>(k, r) \<in> set (tasks (syncState (fold (syncTaskA env taskListA taskListB tasksBMap) tasksA s))).
        accountBId r \<noteq> x"
proof (induction tasksA arbitrary: s)
  case Nil
  then show ?case by simp
next
  case (Cons a tasksA)
  let ?s' = "syncTaskA env taskListA taskListB tasksBMap a s"
  from syncTaskA_known[OF new, of s taskListA taskListB tasksBMap a] Cons.prems(1)
  have 1: "x \<in> known (world ?s')" by auto
  have 2: "\<forall>(k, r) \<in> set (tasks (syncState ?s')). accountBId r \<noteq> x"
    by (rule syncTaskA_noB[OF new Cons.prems])
  from Cons.IH[OF 1 2] show ?case by simp
qed

lemma loopB_noB:
  assumes "x \<notin> task_id ` set tasksB"
    and "\<forall>(k, r) \<in> set (tasks (syncState s)). accountBId r \<noteq> x"
  shows "\<forall>(k, r) \<in> set (tasks (syncState (fold (syncTaskB env taskListA taskListB) tasksB s))).
           accountBId r \<noteq> x"
proof (clarify)
  fix k r
  assume in': "(k, r) \<in> set (tasks (syncState (fold (syncTaskB env taskListA taskListB) tasksB s)))"
    and "x = accountBId r"
  with assms(1) have "accountBId r \<notin> task_id ` set tasksB" by simp
  from loopB_old[OF in' this] assms(2) \<open>x = accountBId r\<close> show False by auto
qed

lemma syncTaskA_processed_mono:
  "processedPairs s \<subseteq> processedPairs (syncTaskA env taskListA taskListB tasksBMap a s)"
  by (auto simp add: syncTaskA_def Let_def case_prod_beta split: option.splits sum.splits)

lemma loopA_processed_mono:
  "processedPairs s \<subseteq> processedPairs (fold (syncTaskA env taskListA taskListB tasksBMap) tasksA s)"
proof (induction tasksA arbitrary: s)
  case Nil
  then show ?case by simp
next
  case (Cons a tasksA)
  from Cons.IH[of "syncTaskA env taskListA taskListB tasksBMap a s"]
    syncTaskA_processed_mono[of s env taskListA taskListB tasksBMap a]
  show ?case by auto
qed


text \<open>
  Claim C10. Let the record of \<open>a\<close> be stored under its own key and be the only record
  that names \<open>b\<close>, let one of the two tasks be modified and their contents differ, and let
  the update that the loop body attempts fail with code 404 or 400. Then the body deletes
  the record and marks the pair as processed. In the rest of the pass, through the tasks
  of A that follow \<open>a\<close> and the tasks of B that precede \<open>b\<close>, no record comes to name \<open>b\<close>
  (the service issues new ids, and the snapshot of B lists \<open>b\<close> once), so when the second
  loop reaches \<open>b\<close> it finds no record, the mark notwithstanding, and calls \<open>createTask\<close>
  against A with \<open>b\<close>'s content. The request \<^verbatim>\<open>tasks.insert\<close> is made in the outside
  world as that body found it: when the service answers it with the new task, the outside
  world afterwards is the one that request has left and a record of the new id, \<open>b\<close>'s id
  and \<open>b.updated\<close> is stored, as it is whenever the call returns, retries included.
\<close>

theorem evicted_pair_is_recreated:
  fixes env :: "'w env"
  assumes "issuesNewIds env known" and "task_id b \<in> known (world s)"
    and "find (\<lambda>(k, r). accountAId r = task_id a) (tasks (syncState s)) = Some (k, r)"
    and "k = pairKey r"
    and "tasksBMap (accountBId r) = Some b" and "task_id b = accountBId r"
    and "\<forall>(k', r') \<in> set (tasks (syncState s)). accountBId r' = accountBId r \<longrightarrow> k' = k"
    and "date_gt env (updated a) (lastSyncedUpdate r) \<or> date_gt env (updated b) (lastSyncedUpdate r)"
    and "\<not> tasksAreEqual a b"
    and "(if date_gt env (updated a) (lastSyncedUpdate r) \<and>
             (date_gt env (updated b) (lastSyncedUpdate r) \<longrightarrow> date_gt env (updated a) (updated b))
          then fst (updateTask env AccountB (list_id taskListB) (task_id b) a s)
          else fst (updateTask env AccountA (list_id taskListA) (task_id a) b s)) = Inl e"
    and "code e = Num 404 \<or> code e = Num 400"
    and "task_id b \<notin> task_id ` set before"
  shows
   "(let s1 = syncTaskA env taskListA taskListB tasksBMap a s;
         s2 = fold (syncTaskB env taskListA taskListB) before
                (fold (syncTaskA env taskListA taskListB tasksBMap) rest s1)
     in tasks (syncState s1) = AList.delete k (tasks (syncState s)) \<and>
        pairKey r \<in> processedPairs s2 \<and>
        find (\<lambda>(k, r). accountBId r = task_id b) (tasks (syncState s2)) = None \<and>
        issued (syncTaskB env taskListA taskListB b s2) =
          issued s2 @ [CreateTask AccountA (body_of b)] \<and>
        (\<forall>newTaskA w'.
           api_tasks_insert env AccountA (list_id taskListA) (body_of b) (world s2) = (Inr newTaskA, w') \<longrightarrow>
             world (syncTaskB env taskListA taskListB b s2) = w' \<and>
             tasks (syncState (syncTaskB env taskListA taskListB b s2)) =
               AList.update (task_id newTaskA @ ''-'' @ task_id b)
                 \<lparr>accountAId = task_id newTaskA, accountBId = task_id b,
                  lastSyncedUpdate = updated b\<rparr> (tasks (syncState s2))) \<and>
        (\<forall>newTaskA. fst (createTask env AccountA (list_id taskListA) b s2) = Inr newTaskA \<longrightarrow>
           tasks (syncState (syncTaskB env taskListA taskListB b s2)) =
             AList.update (task_id newTaskA @ ''-'' @ task_id b)
               \<lparr>accountAId = task_id newTaskA, accountBId = task_id b,
                lastSyncedUpdate = updated b\<rparr> (tasks (syncState s2))))"
proof -
  let ?s1 = "syncTaskA env taskListA taskListB tasksBMap a s"
  let ?sR = "fold (syncTaskA env taskListA taskListB tasksBMap) rest ?s1"
  let ?s2 = "fold (syncTaskB env taskListA taskListB) before ?sR"
  have t: "tasks (syncState ?s1) = AList.delete k (tasks (syncState s))"
    using assms(3,4,5,8,9,10,11)
    by (auto simp add: syncTaskA_def Let_def copyOnto_tasks_failed split: if_splits)
  have p1: "pairKey r \<in> processedPairs ?s1"
    using assms(3,5) by (simp add: syncTaskA_def Let_def)
  with loopA_processed_mono[of ?s1 env taskListA taskListB tasksBMap rest]
  have p: "pairKey r \<in> processedPairs ?s2" by auto
  have "find (\<lambda>(k, r). accountBId r = task_id b) (tasks (syncState ?s1)) = None"
    unfolding t assms(6) using assms(7) by (rule find_delete_None)
  then have n1: "\<forall>(k, r) \<in> set (tasks (syncState ?s1)). accountBId r \<noteq> task_id b"
    by (auto simp add: find_None_iff)
  from syncTaskA_known[OF assms(1), of s taskListA taskListB tasksBMap a] assms(2)
  have k1: "task_id b \<in> known (world ?s1)" by auto
  have nR: "\<forall>(k, r) \<in> set (tasks (syncState ?sR)). accountBId r \<noteq> task_id b"
    by (rule loopA_noB[OF assms(1) k1 n1])
  have n2: "\<forall>(k, r) \<in> set (tasks (syncState ?s2)). accountBId r \<noteq> task_id b"
    by (rule loopB_noB[OF assms(12) nR])
  then have f: "find (\<lambda>(k, r). accountBId r = task_id b) (tasks (syncState ?s2)) = None"
    by (auto simp add: find_None_iff)
  note u = syncTaskB_unpaired[OF f, of env taskListA taskListB]
  have w: "\<forall>newTaskA w'.
           api_tasks_insert env AccountA (list_id taskListA) (body_of b) (world ?s2) = (Inr newTaskA, w') \<longrightarrow>
             world (syncTaskB env taskListA taskListB b ?s2) = w' \<and>
             tasks (syncState (syncTaskB env taskListA taskListB b ?s2)) =
               AList.update (task_id newTaskA @ ''-'' @ task_id b)
                 \<lparr>accountAId = task_id newTaskA, accountBId = task_id b,
                  lastSyncedUpdate = updated b\<rparr> (tasks (syncState ?s2))"
  proof (intro allI impI)
    fix newTaskA w'
    assume "api_tasks_insert env AccountA (list_id taskListA) (body_of b) (world ?s2) = (Inr newTaskA, w')"
    then have "createTask env AccountA (list_id taskListA) b ?s2 =
        (Inr newTaskA, (record_call (CreateTask AccountA (body_of b)) ?s2)\<lparr>world := w'\<rparr>)"
      by (simp add: createTask_first)
    with u show "world (syncTaskB env taskListA taskListB b ?s2) = w' \<and>
             tasks (syncState (syncTaskB env taskListA taskListB b ?s2)) =
               AList.update (task_id newTaskA @ ''-'' @ task_id b)
                 \<lparr>accountAId = task_id newTaskA, accountBId = task_id b,
                  lastSyncedUpdate = updated b\<rparr> (tasks (syncState ?s2))"
      by simp
  qed
  have c: "\<forall>newTaskA. fst (createTask env AccountA (list_id taskListA) b ?s2) = Inr newTaskA \<longrightarrow>
           tasks (syncState (syncTaskB env taskListA taskListB b ?s2)) =
             AList.update (task_id newTaskA @ ''-'' @ task_id b)
               \<lparr>accountAId = task_id newTaskA, accountBId = task_id b,
                lastSyncedUpdate = updated b\<rparr> (tasks (syncState ?s2))"
    using u by simp
  from u have i: "issued (syncTaskB env taskListA taskListB b ?s2) =
          issued ?s2 @ [CreateTask AccountA (body_of b)]" by simp
  show ?thesis
    unfolding Let_def using t p f i w c by blast
qed


theorem evicted_pair_is_recreated_witness:
  "tasks (syncState (syncTaskA mem_env theList theList (taskMap [mk_task ''b1'' ''Buy bread'' ''200''])
      (mk_task ''a1'' ''Buy milk'' ''300'')
      (start (pairAB ''100'')
         (worldOf [mk_task ''a1'' ''Buy milk'' ''300'', mk_task ''a2'' ''Buy eggs'' ''150''] [])))) = [] \<and>
   issued (syncTaskB mem_env theList theList (mk_task ''b1'' ''Buy bread'' ''200'')
      (fold (syncTaskB mem_env theList theList) []
        (fold (syncTaskA mem_env theList theList (taskMap [mk_task ''b1'' ''Buy bread'' ''200'']))
           [mk_task ''a2'' ''Buy eggs'' ''150'']
           (syncTaskA mem_env theList theList (taskMap [mk_task ''b1'' ''Buy bread'' ''200''])
              (mk_task ''a1'' ''Buy milk'' ''300'')
              (start (pairAB ''100'')
                 (worldOf [mk_task ''a1'' ''Buy milk'' ''300'', mk_task ''a2'' ''Buy eggs'' ''150''] [])))))) =
     [UpdateTask AccountB ''b1'' (body_of (mk_task ''a1'' ''Buy milk'' ''300'')),
      CreateTask AccountB (body_of (mk_task ''a2'' ''Buy eggs'' ''150'')),
      CreateTask AccountA (body_of (mk_task ''b1'' ''Buy bread'' ''200''))] \<and>
   world (syncTaskB mem_env theList theList (mk_task ''b1'' ''Buy bread'' ''200'')
      (fold (syncTaskB mem_env theList theList) []
        (fold (syncTaskA mem_env theList theList (taskMap [mk_task ''b1'' ''Buy bread'' ''200'']))
           [mk_task ''a2'' ''Buy eggs'' ''150'']
           (syncTaskA mem_env theList theList (taskMap [mk_task ''b1'' ''Buy bread'' ''200''])
              (mk_task ''a1'' ''Buy milk'' ''300'')
              (start (pairAB ''100'')
                 (worldOf [mk_task ''a1'' ''Buy milk'' ''300'', mk_task ''a2'' ''Buy eggs'' ''150''] [])))))) =
     \<lparr>storeA = [mk_task ''a1'' ''Buy milk'' ''300'', mk_task ''a2'' ''Buy eggs'' ''150'',
                mk_task ''t1001'' ''Buy bread'' ''1001''],
      storeB = [mk_task ''t1000'' ''Buy eggs'' ''1000''], clock = 1002, stateFile = None\<rparr> \<and>
   tasks (syncState (syncTaskB mem_env theList theList (mk_task ''b1'' ''Buy bread'' ''200'')
      (fold (syncTaskB mem_env theList theList) []
        (fold (syncTaskA mem_env theList theList (taskMap [mk_task ''b1'' ''Buy bread'' ''200'']))
           [mk_task ''a2'' ''Buy eggs'' ''150'']
           (syncTaskA mem_env theList theList (taskMap [mk_task ''b1'' ''Buy bread'' ''200''])
              (mk_task ''a1'' ''Buy milk'' ''300'')
              (start (pairAB ''100'')
                 (worldOf [mk_task ''a1'' ''Buy milk'' ''300'', mk_task ''a2'' ''Buy eggs'' ''150''] []))))))) =
     [(''a2-t1000'', \<lparr>accountAId = ''a2'', accountBId = ''t1000'', lastSyncedUpdate = ''150''\<rparr>),
      (''t1001-b1'', \<lparr>accountAId = ''t1001'', accountBId = ''b1'', lastSyncedUpdate = ''200''\<rparr>)]"
proof -
  let ?a = "mk_task ''a1'' ''Buy milk'' ''300''"
  let ?c = "mk_task ''a2'' ''Buy eggs'' ''150''"
  let ?b = "mk_task ''b1'' ''Buy bread'' ''200''"
  let ?n = "mk_task ''t1001'' ''Buy bread'' ''1001''"
  let ?r = "\<lparr>accountAId = ''a1'', accountBId = ''b1'', lastSyncedUpdate = ''100''\<rparr>"
  let ?s = "start (pairAB ''100'') (worldOf [?a, ?c] [])"
  let ?t = "syncTaskA mem_env theList theList (taskMap [?b]) ?a ?s"
  let ?u = "fold (syncTaskB mem_env theList theList) []
              (fold (syncTaskA mem_env theList theList (taskMap [?b])) [?c] ?t)"
  let ?w = "\<lparr>storeA = [?a, ?c, ?n], storeB = [mk_task ''t1000'' ''Buy eggs'' ''1000''],
             clock = 1002, stateFile = None\<rparr>"
  have 0: "task_id ?b \<in> oldIds (world ?s)" by (simp add: mk_task_def not_new_id)
  have 1: "find (\<lambda>(k, r). accountAId r = task_id ?a) (tasks (syncState ?s)) = Some (''a1-b1'', ?r)"
    by code_simp
  have 2: "''a1-b1'' = pairKey ?r" by code_simp
  have 3: "taskMap [?b] (accountBId ?r) = Some ?b" "task_id ?b = accountBId ?r" by code_simp+
  have 4: "\<forall>(k', r') \<in> set (tasks (syncState ?s)). accountBId r' = accountBId ?r \<longrightarrow> k' = ''a1-b1''"
    by code_simp
  have 5: "date_gt mem_env (updated ?a) (lastSyncedUpdate ?r) \<or>
           date_gt mem_env (updated ?b) (lastSyncedUpdate ?r)" by code_simp
  have 6: "\<not> tasksAreEqual ?a ?b" by code_simp
  have 7: "(if date_gt mem_env (updated ?a) (lastSyncedUpdate ?r) \<and>
             (date_gt mem_env (updated ?b) (lastSyncedUpdate ?r) \<longrightarrow>
              date_gt mem_env (updated ?a) (updated ?b))
          then fst (updateTask mem_env AccountB (list_id theList) (task_id ?b) ?a ?s)
          else fst (updateTask mem_env AccountA (list_id theList) (task_id ?a) ?b ?s)) = Inl notFound"
    by code_simp
  have 8: "code notFound = Num 404 \<or> code notFound = Num 400" by code_simp
  have 9: "task_id ?b \<notin> task_id ` set []" by simp
  have 10: "api_tasks_insert mem_env AccountA (list_id theList) (body_of ?b) (world ?u) = (Inr ?n, ?w)"
    by code_simp
  have 11: "issued ?u = [UpdateTask AccountB ''b1'' (body_of ?a), CreateTask AccountB (body_of ?c)]"
    by code_simp
  have 12: "tasks (syncState ?u) =
     [(''a2-t1000'', \<lparr>accountAId = ''a2'', accountBId = ''t1000'', lastSyncedUpdate = ''150''\<rparr>)]"
    by code_simp
  have 13: "tasks (syncState ?s) = pairAB ''100''" by code_simp
  from evicted_pair_is_recreated[where s="?s" and a="?a" and b="?b" and k="''a1-b1''" and r="?r"
      and tasksBMap="taskMap [?b]" and env=mem_env and taskListA=theList and taskListB=theList
      and e=notFound and known=oldIds and before="[]" and rest="[?c]",
      OF mem_issuesNewIds 0 1 2 3 4 5 6 7 8 9]
  have "tasks (syncState ?t) = AList.delete ''a1-b1'' (tasks (syncState ?s))"
    and "issued (syncTaskB mem_env theList theList ?b ?u) = issued ?u @ [CreateTask AccountA (body_of ?b)]"
    and "world (syncTaskB mem_env theList theList ?b ?u) = ?w"
    and "tasks (syncState (syncTaskB mem_env theList theList ?b ?u)) =
            AList.update (task_id ?n @ ''-'' @ task_id ?b)
              \<lparr>accountAId = task_id ?n, accountBId = task_id ?b,
               lastSyncedUpdate = updated ?b\<rparr> (tasks (syncState ?u))"
    using 10 unfolding Let_def by blast+
  then show ?thesis unfolding 11 12 13 by (simp add: mk_task_def pairAB_def AList.delete_eq)
qed

section \<open>A second pass\<close>

text \<open>
  Claim C4 says that a second pass, run on what the first pass has left, issues no
  create, update or delete. It fails when the key of a new pair record, made of the two
  ids with a dash between them, is the key of another record. Here the ledger is as the
  program writes it and names every id once, and no store holds an id twice. The first
  pass creates \<open>p-q\<close> in B, where it gets the id \<open>t1000\<close>, and stores the new record under
  \<open>p-q-t1000\<close>: that is the key of the record of \<open>p\<close> and \<open>q-t1000\<close>, which is overwritten.
  The second loop then finds no record for \<open>q-t1000\<close> and creates it in A. The second
  pass finds no record for \<open>p\<close> and creates it in B once more, so that store B then holds
  that task twice.
\<close>

theorem second_pass_creates_again:
  "map fst dashLedger = map (\<lambda>(k, r). pairKey r) dashLedger \<and> pairsUnique dashLedger \<and>
   distinct (map task_id dashA) \<and> distinct (map task_id dashB) \<and>
   issued firstPass =
     [CreateTask AccountB (body_of (mk_task ''p-q'' ''Call Bob'' ''150'')),
      CreateTask AccountA (body_of (mk_task ''q-t1000'' ''Buy milk'' ''100''))] \<and>
   tasks (syncState firstPass) =
     [(''p-q-t1000'', \<lparr>accountAId = ''p-q'', accountBId = ''t1000'', lastSyncedUpdate = ''150''\<rparr>),
      (''t1001-q-t1000'', \<lparr>accountAId = ''t1001'', accountBId = ''q-t1000'', lastSyncedUpdate = ''100''\<rparr>)] \<and>
   issued secondPass =
     issued firstPass @ [CreateTask AccountB (body_of (mk_task ''p'' ''Buy milk'' ''100''))] \<and>
   map title (storeB (world firstPass)) = [''Buy milk'', ''Call Bob''] \<and>
   map title (storeB (world secondPass)) = [''Buy milk'', ''Call Bob'', ''Buy milk'']"
  by code_simp

end
